theory Spec2Isabelle
  imports Complex_Main "HOL-Library.Word"
begin

section \<open>The WAV encoder of the gibbering effect\<close>

subsection \<open>Platform objects: errors, byte arrays, audio buffers\<close>

text \<open>
  The exceptions of the platform that the modelled code can meet: a \<open>DataView\<close> write
  outside its \<open>ArrayBuffer\<close> or a negative schedule time throws \<open>RangeError\<close>,
  starting a source node twice or stopping one that was never started throws
  \<open>InvalidStateError\<close>, a method call on \<open>null\<close> throws \<open>TypeError\<close>, an offline
  context of zero frames is refused with \<open>NotSupportedError\<close>, and an offline
  rendering that cannot complete rejects with \<open>RenderFailure\<close>.
\<close>

datatype error =
  RangeError | InvalidStateError | TypeError | NotSupportedError | RenderFailure

type_synonym byte = "8 word"

text \<open>
  An \<open>AudioBuffer\<close> of the Web Audio API: \<open>numberOfChannels\<close> and \<open>length\<close> are
  unsigned integers, \<open>getChannelData(c)[j]\<close> is the sample of channel \<open>c\<close> at frame
  \<open>j\<close>. A finite float sample is a real number, and the encoder's arithmetic on it
  (comparison with \<open>-1\<close> and \<open>1\<close>, one product of a 24-bit significand with
  \<open>0x7fff\<close>) is exact in double precision, so it is the arithmetic of the reals.
  The sample rate of a rendered buffer is the device rate, a whole number of hertz.
\<close>

record AudioBuffer =
  numberOfChannels :: nat
  sampleRate :: nat
  bufLength :: nat
  getChannelData :: "nat \<Rightarrow> nat \<Rightarrow> real"

text \<open>A \<open>Blob\<close>: its bytes and its MIME type.\<close>

record Blob =
  blobBytes :: "byte list"
  blobType :: string

text \<open>Sequencing of calls that may throw: the first exception ends the run.\<close>

definition andThen :: "'e + 'a \<Rightarrow> ('a \<Rightarrow> 'e + 'b) \<Rightarrow> 'e + 'b" where
  "andThen r f = (case r of Inl e \<Rightarrow> Inl e | Inr v \<Rightarrow> f v)"

subsection \<open>DataView\<close>

text \<open>
  \<open>ToIntegerOrInfinity\<close> on a finite number truncates towards zero; \<open>ToInt16\<close> then
  reduces modulo \<open>2^16\<close>, which is what \<open>word_of_int\<close> does.
\<close>

definition jsTruncate :: "real \<Rightarrow> int" where
  "jsTruncate x = (if x < 0 then - \<lfloor>- x\<rfloor> else \<lfloor>x\<rfloor>)"

definition ToInt16 :: "real \<Rightarrow> 16 word" where
  "ToInt16 x = word_of_int (jsTruncate x)"

definition setUint8 :: "byte list \<Rightarrow> nat \<Rightarrow> nat \<Rightarrow> error + byte list" where
  "setUint8 view byteOffset v =
     (if byteOffset + 1 \<le> length view
      then Inr (view[byteOffset := of_nat v])
      else Inl RangeError)"

definition put16 :: "byte list \<Rightarrow> nat \<Rightarrow> 16 word \<Rightarrow> bool \<Rightarrow> byte list" where
  "put16 view byteOffset w littleEndian =
     (if littleEndian
      then view[byteOffset := ucast w, byteOffset + 1 := ucast (drop_bit 8 w)]
      else view[byteOffset := ucast (drop_bit 8 w), byteOffset + 1 := ucast w])"

definition setUint16 :: "byte list \<Rightarrow> nat \<Rightarrow> nat \<Rightarrow> bool \<Rightarrow> error + byte list" where
  "setUint16 view byteOffset v littleEndian =
     (if byteOffset + 2 \<le> length view
      then Inr (put16 view byteOffset (of_nat v) littleEndian)
      else Inl RangeError)"

definition setInt16 :: "byte list \<Rightarrow> nat \<Rightarrow> real \<Rightarrow> bool \<Rightarrow> error + byte list" where
  "setInt16 view byteOffset v littleEndian =
     (if byteOffset + 2 \<le> length view
      then Inr (put16 view byteOffset (ToInt16 v) littleEndian)
      else Inl RangeError)"

definition setUint32 :: "byte list \<Rightarrow> nat \<Rightarrow> nat \<Rightarrow> bool \<Rightarrow> error + byte list" where
  "setUint32 view byteOffset v littleEndian =
     (if byteOffset + 4 \<le> length view
      then (let w = (of_nat v :: 32 word) in
            Inr (if littleEndian
                 then view[byteOffset := ucast w,
                           byteOffset + 1 := ucast (drop_bit 8 w),
                           byteOffset + 2 := ucast (drop_bit 16 w),
                           byteOffset + 3 := ucast (drop_bit 24 w)]
                 else view[byteOffset := ucast (drop_bit 24 w),
                           byteOffset + 1 := ucast (drop_bit 16 w),
                           byteOffset + 2 := ucast (drop_bit 8 w),
                           byteOffset + 3 := ucast w]))
      else Inl RangeError)"

text \<open>The readers of a \<open>DataView\<close>, used to decode what the encoder wrote.\<close>

definition getUint16 :: "byte list \<Rightarrow> nat \<Rightarrow> bool \<Rightarrow> error + nat" where
  "getUint16 view byteOffset littleEndian =
     (if byteOffset + 2 \<le> length view
      then Inr (if littleEndian
                then unat (view ! byteOffset) + 256 * unat (view ! (byteOffset + 1))
                else unat (view ! (byteOffset + 1)) + 256 * unat (view ! byteOffset))
      else Inl RangeError)"

definition getInt16 :: "byte list \<Rightarrow> nat \<Rightarrow> bool \<Rightarrow> error + int" where
  "getInt16 view byteOffset littleEndian =
     andThen (getUint16 view byteOffset littleEndian)
       (\<lambda>u. Inr (sint (of_nat u :: 16 word)))"

definition getUint32 :: "byte list \<Rightarrow> nat \<Rightarrow> bool \<Rightarrow> error + nat" where
  "getUint32 view byteOffset littleEndian =
     (if byteOffset + 4 \<le> length view
      then Inr (if littleEndian
                then unat (view ! byteOffset) + 256 * unat (view ! (byteOffset + 1))
                     + 65536 * unat (view ! (byteOffset + 2))
                     + 16777216 * unat (view ! (byteOffset + 3))
                else unat (view ! (byteOffset + 3)) + 256 * unat (view ! (byteOffset + 2))
                     + 65536 * unat (view ! (byteOffset + 1))
                     + 16777216 * unat (view ! byteOffset))
      else Inl RangeError)"

text \<open>The four character codes of a chunk tag at \<open>offset\<close> (four \<open>getUint8\<close> reads).\<close>

definition getTag :: "byte list \<Rightarrow> nat \<Rightarrow> nat list" where
  "getTag view offset =
     [unat (view ! offset), unat (view ! (offset + 1)),
      unat (view ! (offset + 2)), unat (view ! (offset + 3))]"

subsection \<open>writeString and the header\<close>

function writeStringFrom :: "byte list \<Rightarrow> nat \<Rightarrow> string \<Rightarrow> nat \<Rightarrow> error + byte list" where
  "writeStringFrom view offset str i =
     (if i < length str
      then andThen (setUint8 view (offset + i) (of_char (str ! i)))
             (\<lambda>view'. writeStringFrom view' offset str (i + 1))
      else Inr view)"
  by pat_completeness auto
termination
  by (relation "measure (\<lambda>(view, offset, str, i). length str - i)") auto

declare writeStringFrom.simps [simp del]

definition writeString :: "byte list \<Rightarrow> nat \<Rightarrow> string \<Rightarrow> error + byte list" where
  "writeString view offset str = writeStringFrom view offset str 0"

text \<open>Lines 378 to 390 of \<open>bufferToWav\<close>: the 44-byte header, \<open>len\<close> the data size.\<close>

definition writeHeader :: "byte list \<Rightarrow> nat \<Rightarrow> nat \<Rightarrow> nat \<Rightarrow> error + byte list" where
  "writeHeader view nch rate len =
     andThen (writeString view 0 ''RIFF'') (\<lambda>view.
     andThen (setUint32 view 4 (36 + len) True) (\<lambda>view.
     andThen (writeString view 8 ''WAVE'') (\<lambda>view.
     andThen (writeString view 12 ''fmt '') (\<lambda>view.
     andThen (setUint32 view 16 16 True) (\<lambda>view.
     andThen (setUint16 view 20 1 True) (\<lambda>view.
     andThen (setUint16 view 22 nch True) (\<lambda>view.
     andThen (setUint32 view 24 rate True) (\<lambda>view.
     andThen (setUint32 view 28 (rate * nch * 2) True) (\<lambda>view.
     andThen (setUint16 view 32 (nch * 2) True) (\<lambda>view.
     andThen (setUint16 view 34 16 True) (\<lambda>view.
     andThen (writeString view 36 ''data'') (\<lambda>view.
     setUint32 view 40 len True))))))))))))"

subsection \<open>The sample loops\<close>

text \<open>
  The loops thread the view and the write offset. \<open>channelLoop\<close> is the innermost
  \<open>for\<close> over the channels of frame \<open>j\<close>, \<open>frameLoop\<close> the loop over the frames
  \<open>j < endFrame\<close>.
\<close>

function channelLoop :: "AudioBuffer \<Rightarrow> nat \<Rightarrow> nat \<Rightarrow> byte list \<times> nat \<Rightarrow> error + byte list \<times> nat" where
  "channelLoop buffer j channel (view, offset) =
     (if channel < numberOfChannels buffer
      then (let sample = getChannelData buffer channel j;
                int16 = max (- 1) (min 1 sample) * 32767
            in andThen (setInt16 view offset int16 True)
                 (\<lambda>view'. channelLoop buffer j (channel + 1) (view', offset + 2)))
      else Inr (view, offset))"
  by pat_completeness auto
termination
  by (relation "measure (\<lambda>(buffer, j, channel, st). numberOfChannels buffer - channel)") auto

declare channelLoop.simps [simp del]

function frameLoop :: "AudioBuffer \<Rightarrow> nat \<Rightarrow> nat \<Rightarrow> byte list \<times> nat \<Rightarrow> error + byte list \<times> nat" where
  "frameLoop buffer j endFrame st =
     (if j < endFrame
      then andThen (channelLoop buffer j 0 st) (frameLoop buffer (j + 1) endFrame)
      else Inr st)"
  by pat_completeness auto
termination
  by (relation "measure (\<lambda>(buffer, j, endFrame, st). endFrame - j)") auto

declare frameLoop.simps [simp del]

text \<open>
  The chunked loop of \<open>src/app.js\<close>: chunks of \<open>chunkSize\<close> frames, and between two
  chunks an \<open>await\<close> on a zero-delay timer. The suspension gives other handlers a
  turn; none of them holds the rendered buffer, the view or the offset, which are local
  to the call, so the step only counts the yields.
\<close>

definition chunkSize :: nat where
  "chunkSize = 10000"

function chunkLoop :: "AudioBuffer \<Rightarrow> nat \<Rightarrow> (byte list \<times> nat) \<times> nat \<Rightarrow> error + (byte list \<times> nat) \<times> nat" where
  "chunkLoop buffer i (st, yields) =
     (if i < bufLength buffer
      then (let endFrame = min (i + chunkSize) (bufLength buffer)
            in andThen (frameLoop buffer i endFrame st)
                 (\<lambda>st'. chunkLoop buffer (i + chunkSize)
                           (st', if i + chunkSize < bufLength buffer then yields + 1 else yields)))
      else Inr (st, yields))"
  by pat_completeness auto
termination
  by (relation "measure (\<lambda>(buffer, i, st). bufLength buffer - i)") (auto simp: chunkSize_def)

declare chunkLoop.simps [simp del]

text \<open>\<open>bufferToWav\<close> of \<open>src/app.js\<close> (chunked, asynchronous).\<close>

definition bufferToWav :: "AudioBuffer \<Rightarrow> error + Blob" where
  "bufferToWav buffer =
     (let numberOfChannels = numberOfChannels buffer;
          sampleRate = sampleRate buffer;
          len = bufLength buffer * numberOfChannels * 2;
          arrayBuffer = replicate (44 + len) (0 :: byte)
      in andThen (writeHeader arrayBuffer numberOfChannels sampleRate len) (\<lambda>view.
         andThen (chunkLoop buffer 0 ((view, 44), 0)) (\<lambda>((view', offset), yields).
         Inr \<lparr>blobBytes = view', blobType = ''audio/wav''\<rparr>)))"

text \<open>\<open>bufferToWav\<close> of the earlier revision (straight-line, synchronous).\<close>

definition bufferToWavSync :: "AudioBuffer \<Rightarrow> error + Blob" where
  "bufferToWavSync buffer =
     (let numberOfChannels = numberOfChannels buffer;
          sampleRate = sampleRate buffer;
          len = bufLength buffer * numberOfChannels * 2;
          arrayBuffer = replicate (44 + len) (0 :: byte)
      in andThen (writeHeader arrayBuffer numberOfChannels sampleRate len) (\<lambda>view.
         andThen (frameLoop buffer 0 (bufLength buffer) (view, 44)) (\<lambda>(view', offset).
         Inr \<lparr>blobBytes = view', blobType = ''audio/wav''\<rparr>)))"

section \<open>The effect engine\<close>

subsection \<open>Configuration, audio graph and page state\<close>

text \<open>
  The numbers of the page are IEEE doubles, and the value of an \<open>AudioParam\<close> is an
  IEEE single. \<open>roundTo p emin emax\<close> takes a real to the nearest number with \<open>p\<close>
  significant bits and an exponent from \<open>emin\<close> to \<open>emax\<close>, a tie going to the even
  significand: \<open>binade\<close> searches the exponent of the argument downwards from \<open>emax\<close>
  and stops at \<open>emin\<close>, where the subnormal numbers keep the spacing of the lowest
  binade. \<open>fround\<close> is the conversion to single precision that storing into an
  \<open>AudioParam\<close> performs, \<open>dround\<close> the rounding of the result of an operation on
  doubles. \<open>NaN\<close>, the infinities and numbers beyond the largest finite single, which
  the setter of an \<open>AudioParam\<close> rejects, are outside the model: there the function
  goes on with the spacing of the top binade.
\<close>

definition roundEven :: "real \<Rightarrow> int" where
  "roundEven y =
     (let f = \<lfloor>y\<rfloor>; r = y - of_int f
      in if r < 1 / 2 then f
         else if 1 / 2 < r then f + 1
         else if even f then f else f + 1)"

fun binade :: "nat \<Rightarrow> int \<Rightarrow> real \<Rightarrow> int" where
  "binade 0 e x = e"
| "binade (Suc n) e x = (if 2 powi e \<le> x then e else binade n (e - 1) x)"

definition roundTo :: "nat \<Rightarrow> int \<Rightarrow> int \<Rightarrow> real \<Rightarrow> real" where
  "roundTo p emin emax x =
     (let e = binade (nat (emax - emin)) emax \<bar>x\<bar>;
          ulp = 2 powi (e - int p + 1)
      in ulp * of_int (roundEven (x / ulp)))"

definition fround :: "real \<Rightarrow> real" where
  "fround = roundTo 24 (- 126) 127"

definition dround :: "real \<Rightarrow> real" where
  "dround = roundTo 53 (- 1022) 1023"

text \<open>
  The \<open>CONFIG\<close> object. The counts and the millisecond values come from \<open>parseInt\<close>,
  the others from \<open>parseFloat\<close>. The model computes with reals. It rounds where the
  page stores a gain coefficient, which the node keeps in single precision, and where it
  subtracts the wet mix from 1; the sampled pitch, the sampled gain, the stagger and the
  sums of times are the real values of their expressions.
\<close>

record config =
  VOICE_COUNT :: nat
  PITCH_MIN :: real
  PITCH_MAX :: real
  STAGGER_MAX_MS :: nat
  GAIN_MIN :: real
  GAIN_MAX :: real
  EFFECT_DURATION_MS :: nat
  REVERB_WET_MIX :: real
  LOOP_PROBABILITY :: real

text \<open>
  The nodes of an audio context live in a store, a node's identity being its index.
  A node is connected to other nodes of the store or to the context's destination.
\<close>

datatype target = Destination | Node nat

text \<open>
  A buffer source keeps the buffer, the number assigned to \<open>playbackRate.value\<close>, the
  loop flag, the times given to \<open>start\<close> and \<open>stop\<close>, and whether it has ended. A gain
  node keeps its coefficient as the parameter stores it.
\<close>

record BufferSource =
  sourceBuffer :: "AudioBuffer option"
  playbackRate :: real
  loop :: bool
  startTime :: "real option"
  stopTime :: "real option"
  ended :: bool

datatype node =
  Gain real "target list"
  | Convolver "AudioBuffer option" "target list"
  | Source BufferSource "target list"

record AudioContext =
  ctxSampleRate :: nat

record OfflineAudioContext =
  offChannels :: nat
  offLength :: nat
  offSampleRate :: nat
  offGraph :: "node list"

text \<open>A pending \<open>setTimeout\<close>: its due time in milliseconds and what the closure calls.\<close>

datatype callback = SpawnVoice nat nat bool | RemoveDownloadLink

record timer =
  due :: real
  callback :: callback

text \<open>
  What the page does not decide: the values \<open>Math.random\<close> returns, in order; whether
  the engine is one of those that reject \<open>stop()\<close> on a source already stopped or ended;
  what an offline rendering computes (\<open>None\<close> when it fails); and how far the rendering
  thread, which runs beside the tasks of the page, has come when the page reads the clock
  of the context: \<open>quantaRendered n\<close> is the number of render quanta of 128 frames
  completed between the previous read of \<open>currentTime\<close> and the read number \<open>n\<close>.
\<close>

record env =
  random :: "nat \<Rightarrow> real"
  legacyStop :: bool
  renderSamples :: "OfflineAudioContext \<Rightarrow> (nat \<Rightarrow> nat \<Rightarrow> real) option"
  quantaRendered :: "nat \<Rightarrow> nat"

text \<open>
  The module-level variables of \<open>src/app.js\<close>, the parts of the page its handlers write,
  the store of the live context, the pending timers with the time of the running task,
  the number of \<open>Math.random\<close> calls made so far and the files handed to the browser
  for download. \<open>clockLead\<close> is the number of render quanta by which the clock of the
  context has run ahead of the time of the task, \<open>clockReads\<close> the number of times the
  page has read that clock.
\<close>

record state =
  CONFIG :: config
  audioContext :: "AudioContext option"
  reverbNode :: "nat option"
  recordedBuffer :: "AudioBuffer option"
  currentPlayingSources :: "nat list"
  graph :: "node list"
  timers :: "timer list"
  nowMs :: real
  draws :: nat
  statusText :: string
  statusInitialized :: bool
  playButtonDisplay :: string
  playButtonDisabled :: bool
  stopButtonDisplay :: string
  downloadButtonDisabled :: bool
  downloads :: "(string \<times> Blob) list"
  clockLead :: nat
  clockReads :: nat

subsection \<open>Platform operations\<close>

definition MathRandom :: "env \<Rightarrow> state \<Rightarrow> real \<times> state" where
  "MathRandom env s = (random env (draws s), s\<lparr>draws := draws s + 1\<rparr>)"

text \<open>
  A read of \<open>audioContext.currentTime\<close>, in seconds. The clock advances by whole render
  quanta while a task runs, so that two reads in one task need not agree; a later read
  never returns less than an earlier one.
\<close>

definition currentTime :: "env \<Rightarrow> AudioContext \<Rightarrow> state \<Rightarrow> real \<times> state" where
  "currentTime env ctx s =
     (let lead = clockLead s + quantaRendered env (clockReads s)
      in (nowMs s / 1000 + real (128 * lead) / real (ctxSampleRate ctx),
          s\<lparr>clockLead := lead, clockReads := clockReads s + 1\<rparr>))"

definition createGain :: "node list \<Rightarrow> nat \<times> node list" where
  "createGain g = (length g, g @ [Gain 1 []])"

definition createConvolver :: "node list \<Rightarrow> nat \<times> node list" where
  "createConvolver g = (length g, g @ [Convolver None []])"

definition createBufferSource :: "node list \<Rightarrow> nat \<times> node list" where
  "createBufferSource g =
     (length g,
      g @ [Source \<lparr>sourceBuffer = None, playbackRate = 1, loop = False,
                   startTime = None, stopTime = None, ended = False\<rparr> []])"

definition getSource :: "node list \<Rightarrow> nat \<Rightarrow> BufferSource option" where
  "getSource g n =
     (if n < length g
      then (case g ! n of Source b outs \<Rightarrow> Some b | _ \<Rightarrow> None)
      else None)"

definition getGainValue :: "node list \<Rightarrow> nat \<Rightarrow> real option" where
  "getGainValue g n =
     (if n < length g
      then (case g ! n of Gain v outs \<Rightarrow> Some v | _ \<Rightarrow> None)
      else None)"

definition updSource :: "nat \<Rightarrow> (BufferSource \<Rightarrow> BufferSource) \<Rightarrow> node list \<Rightarrow> node list" where
  "updSource n f g =
     (if n < length g
      then (case g ! n of Source b outs \<Rightarrow> g[n := Source (f b) outs] | _ \<Rightarrow> g)
      else g)"

text \<open>\<open>node.gain.value = v\<close>: the parameter stores \<open>v\<close> in single precision.\<close>

definition setGainValue :: "nat \<Rightarrow> real \<Rightarrow> node list \<Rightarrow> node list" where
  "setGainValue n v g =
     (if n < length g
      then (case g ! n of Gain old outs \<Rightarrow> g[n := Gain (fround v) outs] | _ \<Rightarrow> g)
      else g)"

definition setConvolverBuffer :: "nat \<Rightarrow> AudioBuffer \<Rightarrow> node list \<Rightarrow> node list" where
  "setConvolverBuffer n b g =
     (if n < length g
      then (case g ! n of Convolver old outs \<Rightarrow> g[n := Convolver (Some b) outs] | _ \<Rightarrow> g)
      else g)"

definition connect :: "nat \<Rightarrow> target \<Rightarrow> node list \<Rightarrow> node list" where
  "connect n t g =
     (if n < length g
      then g[n := (case g ! n of
                     Gain v outs \<Rightarrow> Gain v (outs @ [t])
                   | Convolver b outs \<Rightarrow> Convolver b (outs @ [t])
                   | Source b outs \<Rightarrow> Source b (outs @ [t]))]
      else g)"

text \<open>\<open>source.start(when)\<close> and \<open>source.stop(when)\<close>.\<close>

definition sourceStart :: "nat \<Rightarrow> real \<Rightarrow> node list \<Rightarrow> error + node list" where
  "sourceStart n when g =
     (case getSource g n of
        None \<Rightarrow> Inl TypeError
      | Some b \<Rightarrow>
          if startTime b \<noteq> None then Inl InvalidStateError
          else if when < 0 then Inl RangeError
          else Inr (updSource n (\<lambda>b. b\<lparr>startTime := Some when\<rparr>) g))"

definition sourceStop :: "env \<Rightarrow> nat \<Rightarrow> real \<Rightarrow> node list \<Rightarrow> error + node list" where
  "sourceStop env n when g =
     (case getSource g n of
        None \<Rightarrow> Inl TypeError
      | Some b \<Rightarrow>
          if startTime b = None then Inl InvalidStateError
          else if legacyStop env \<and> (stopTime b \<noteq> None \<or> ended b) then Inl InvalidStateError
          else if when < 0 then Inl RangeError
          else Inr (updSource n (\<lambda>b. b\<lparr>stopTime := Some when\<rparr>) g))"

definition setTimeout :: "callback \<Rightarrow> real \<Rightarrow> state \<Rightarrow> state" where
  "setTimeout cb ms s = s\<lparr>timers := timers s @ [\<lparr>due = nowMs s + max 0 ms, callback = cb\<rparr>]\<rparr>"

text \<open>\<open>try { body } catch (e) { handler }\<close> and \<open>Array.prototype.forEach\<close>.\<close>

definition tryCatch :: "error + 'a \<Rightarrow> (error \<Rightarrow> error + 'a) \<Rightarrow> error + 'a" where
  "tryCatch body handler = (case body of Inl e \<Rightarrow> handler e | Inr v \<Rightarrow> Inr v)"

fun forEach :: "'a list \<Rightarrow> ('a \<Rightarrow> 's \<Rightarrow> error + 's) \<Rightarrow> 's \<Rightarrow> error + 's" where
  "forEach [] f s = Inr s"
| "forEach (x # xs) f s = andThen (f x s) (forEach xs f)"

subsection \<open>The functions of src/app.js\<close>

definition updateStatus :: "string \<Rightarrow> bool \<Rightarrow> state \<Rightarrow> state" where
  "updateStatus message isInitialized s =
     s\<lparr>statusText := message, statusInitialized := isInitialized\<rparr>"

text \<open>
  \<open>generateReverbImpulse\<close> and \<open>generateOfflineReverbImpulse\<close> fill two channels of
  \<open>2 * sampleRate\<close> frames with decaying noise, channel 0 first, one \<open>Math.random\<close>
  call per sample: sample \<open>i\<close> of channel \<open>c\<close> takes draw number \<open>c * length + i\<close>
  counted from the first call of the function.
\<close>

definition generateReverbImpulse :: "env \<Rightarrow> nat \<Rightarrow> state \<Rightarrow> AudioBuffer \<times> state" where
  "generateReverbImpulse env rate s =
     (let len = rate * 2;
          impulse = \<lparr>numberOfChannels = 2, sampleRate = rate, bufLength = len,
                     getChannelData = (\<lambda>channel i.
                       if channel < 2 \<and> i < len
                       then (random env (draws s + channel * len + i) * 2 - 1)
                            * exp (- real i / (real rate * 0.5))
                       else 0)\<rparr>
      in (impulse, s\<lparr>draws := draws s + 2 * len\<rparr>))"

definition initAudioContext :: "env \<Rightarrow> nat \<Rightarrow> state \<Rightarrow> state" where
  "initAudioContext env deviceRate s =
     (if audioContext s \<noteq> None then s
      else (let s = s\<lparr>audioContext := Some \<lparr>ctxSampleRate = deviceRate\<rparr>\<rparr>;
                (reverb, g) = createConvolver (graph s);
                (impulse, s) = generateReverbImpulse env deviceRate s;
                s = s\<lparr>reverbNode := Some reverb, graph := setConvolverBuffer reverb impulse g\<rparr>
            in updateStatus ''Audio system initialised'' True s))"

text \<open>\<open>processRecording\<close>, given what \<open>decodeAudioData\<close> made of the captured bytes.\<close>

definition processRecording :: "error + AudioBuffer \<Rightarrow> state \<Rightarrow> state" where
  "processRecording decoded s =
     (case decoded of
        Inr b \<Rightarrow> updateStatus ''Recording complete! Ready to play gibbering effect'' False
                   (s\<lparr>recordedBuffer := Some b, playButtonDisabled := False\<rparr>)
      | Inl e \<Rightarrow> updateStatus ''Error processing recording'' False s)"

text \<open>
  A function of the page that throws leaves behind what it had written before: its
  exceptional result carries the state at the throw. \<open>raising s r\<close> attaches the state
  to the exception of a platform call.
\<close>

definition raising :: "state \<Rightarrow> error + 'a \<Rightarrow> (error \<times> state) + 'a" where
  "raising s r = (case r of Inl e \<Rightarrow> Inl (e, s) | Inr v \<Rightarrow> Inr v)"

definition stopAllSources :: "env \<Rightarrow> state \<Rightarrow> error + state" where
  "stopAllSources env s =
     andThen
       (forEach (currentPlayingSources s)
          (\<lambda>source g. tryCatch (sourceStop env source 0 g) (\<lambda>e. Inr g))
          (graph s))
       (\<lambda>g. Inr (s\<lparr>graph := g, currentPlayingSources := []\<rparr>))"

definition createVoice :: "env \<Rightarrow> nat \<Rightarrow> nat \<Rightarrow> bool \<Rightarrow> state \<Rightarrow> (error \<times> state) + state" where
  "createVoice env dryGain wetGain continuousMode s0 =
     (case audioContext s0 of
        None \<Rightarrow> Inl (TypeError, s0)
      | Some ctx \<Rightarrow>
         (let (source, g) = createBufferSource (graph s0);
              g = updSource source (\<lambda>b. b\<lparr>sourceBuffer := recordedBuffer s0\<rparr>) g;
              (r, s) = MathRandom env s0;
              g = updSource source (\<lambda>b. b\<lparr>playbackRate :=
                    PITCH_MIN (CONFIG s) + r * (PITCH_MAX (CONFIG s) - PITCH_MIN (CONFIG s))\<rparr>) g;
              (g, s) = (if continuousMode
                        then (updSource source (\<lambda>b. b\<lparr>loop := True\<rparr>) g, s)
                        else (let (r, s) = MathRandom env s
                              in if r < LOOP_PROBABILITY (CONFIG s)
                                 then (updSource source (\<lambda>b. b\<lparr>loop := True\<rparr>) g, s)
                                 else (g, s)));
              (gainNode, g) = createGain g;
              (r, s) = MathRandom env s;
              gainValue = GAIN_MIN (CONFIG s) + r * (GAIN_MAX (CONFIG s) - GAIN_MIN (CONFIG s));
              g = setGainValue gainNode gainValue g;
              g = connect source (Node gainNode) g;
              g = connect gainNode (Node dryGain) g;
              g = connect gainNode (Node wetGain) g;
              (now, s) = currentTime env ctx s
          in andThen (raising (s\<lparr>graph := g\<rparr>) (sourceStart source now g)) (\<lambda>g.
             andThen (if \<not> continuousMode
                      then (let (now, s) = currentTime env ctx s
                            in andThen (raising (s\<lparr>graph := g\<rparr>)
                                 (sourceStop env source
                                    (now + real (EFFECT_DURATION_MS (CONFIG s)) / 1000) g))
                                 (\<lambda>g. Inr (g, s)))
                      else Inr (g, s)) (\<lambda>(g, s).
             Inr (s\<lparr>graph := g,
                    currentPlayingSources := currentPlayingSources s @ [source]\<rparr>)))))"

text \<open>
  A source that plays to its end (or to its stop time) is marked ended by the engine,
  which then queues the \<open>onended\<close> handler that \<open>createVoice\<close> installed on it:
  \<open>indexOf\<close> and \<open>splice\<close> remove the first occurrence of the source, if any.
\<close>

definition finishPlayback :: "nat \<Rightarrow> state \<Rightarrow> state" where
  "finishPlayback source s = s\<lparr>graph := updSource source (\<lambda>b. b\<lparr>ended := True\<rparr>) (graph s)\<rparr>"

definition onended :: "nat \<Rightarrow> state \<Rightarrow> state" where
  "onended source s =
     s\<lparr>currentPlayingSources := remove1 source (currentPlayingSources s)\<rparr>"

function spawnLoop :: "env \<Rightarrow> nat \<Rightarrow> nat \<Rightarrow> nat \<Rightarrow> state \<Rightarrow> state" where
  "spawnLoop env dryGain wetGain i s =
     (if i < VOICE_COUNT (CONFIG s)
      then (let (r, s') = MathRandom env s;
                delay = r * real (STAGGER_MAX_MS (CONFIG s')) / 1000
            in spawnLoop env dryGain wetGain (i + 1)
                 (setTimeout (SpawnVoice dryGain wetGain True) (delay * 1000) s'))
      else s)"
  by pat_completeness auto
termination
  by (relation "measure (\<lambda>(env, dryGain, wetGain, i, s). VOICE_COUNT (CONFIG s) - i)")
     (auto simp: MathRandom_def setTimeout_def)

declare spawnLoop.simps [simp del]

definition playGibberingEffect :: "env \<Rightarrow> state \<Rightarrow> (error \<times> state) + state" where
  "playGibberingEffect env s =
     (if recordedBuffer s = None then Inr s
      else andThen (raising s (stopAllSources env s)) (\<lambda>s.
        (let s = updateStatus ''Playing gibbering effect...'' False s;
             s = s\<lparr>playButtonDisplay := ''none'', stopButtonDisplay := ''block''\<rparr>
         in case audioContext s of
              None \<Rightarrow> Inl (TypeError, s)
            | Some ctx \<Rightarrow>
                (let (dryGain, g) = createGain (graph s);
                     (wetGain, g) = createGain g;
                     g = setGainValue dryGain (dround (1 - REVERB_WET_MIX (CONFIG s))) g;
                     g = setGainValue wetGain (REVERB_WET_MIX (CONFIG s)) g;
                     g = connect dryGain Destination g
                 in case reverbNode s of
                      None \<Rightarrow> Inl (TypeError, s\<lparr>graph := g\<rparr>)
                    | Some reverb \<Rightarrow>
                        (let g = connect wetGain (Node reverb) g;
                             g = connect reverb Destination g;
                             s = spawnLoop env dryGain wetGain 0 (s\<lparr>graph := g\<rparr>)
                         in Inr (s\<lparr>downloadButtonDisabled := False\<rparr>))))))"

subsection \<open>Rendering to a file\<close>

definition generateOfflineReverbImpulse ::
  "env \<Rightarrow> OfflineAudioContext \<Rightarrow> state \<Rightarrow> AudioBuffer \<times> state" where
  "generateOfflineReverbImpulse env context s =
     (let rate = offSampleRate context;
          len = rate * 2;
          impulse = \<lparr>numberOfChannels = 2, sampleRate = rate, bufLength = len,
                     getChannelData = (\<lambda>channel i.
                       if channel < 2 \<and> i < len
                       then (random env (draws s + channel * len + i) * 2 - 1)
                            * exp (- real i / (real rate * 0.5))
                       else 0)\<rparr>
      in (impulse, s\<lparr>draws := draws s + 2 * len\<rparr>))"

definition createOfflineVoice ::
  "env \<Rightarrow> OfflineAudioContext \<Rightarrow> nat \<Rightarrow> nat \<Rightarrow> real \<Rightarrow> state
     \<Rightarrow> (error \<times> state) + OfflineAudioContext \<times> state" where
  "createOfflineVoice env context dryGain wetGain delay s0 =
     (let (source, g) = createBufferSource (offGraph context);
          g = updSource source (\<lambda>b. b\<lparr>sourceBuffer := recordedBuffer s0\<rparr>) g;
          (r, s) = MathRandom env s0;
          g = updSource source (\<lambda>b. b\<lparr>playbackRate :=
                PITCH_MIN (CONFIG s) + r * (PITCH_MAX (CONFIG s) - PITCH_MIN (CONFIG s))\<rparr>) g;
          (r, s) = MathRandom env s;
          g = (if r < LOOP_PROBABILITY (CONFIG s)
               then updSource source (\<lambda>b. b\<lparr>loop := True\<rparr>) g
               else g);
          (gainNode, g) = createGain g;
          (r, s) = MathRandom env s;
          gainValue = GAIN_MIN (CONFIG s) + r * (GAIN_MAX (CONFIG s) - GAIN_MIN (CONFIG s));
          g = setGainValue gainNode gainValue g;
          g = connect source (Node gainNode) g;
          g = connect gainNode (Node dryGain) g;
          g = connect gainNode (Node wetGain) g
      in andThen (raising s (sourceStart source delay g)) (\<lambda>g.
         andThen (raising s (sourceStop env source
                               (delay + real (EFFECT_DURATION_MS (CONFIG s)) / 1000) g)) (\<lambda>g.
         Inr (context\<lparr>offGraph := g\<rparr>, s))))"

text \<open>
  The voice loop of \<open>downloadEffect\<close>. Its body does not write \<open>CONFIG\<close>, so the bound
  \<open>n\<close> is \<open>CONFIG.VOICE_COUNT\<close> as read when the loop starts.
\<close>

function offlineLoop ::
  "env \<Rightarrow> nat \<Rightarrow> nat \<Rightarrow> nat \<Rightarrow> nat \<Rightarrow> OfflineAudioContext \<times> state
     \<Rightarrow> (error \<times> state) + OfflineAudioContext \<times> state" where
  "offlineLoop env dryGain wetGain i n (context, s) =
     (if i < n
      then (let (r, s') = MathRandom env s;
                delay = r * real (STAGGER_MAX_MS (CONFIG s')) / 1000
            in andThen (createOfflineVoice env context dryGain wetGain delay s')
                 (offlineLoop env dryGain wetGain (i + 1) n))
      else Inr (context, s))"
  by pat_completeness auto
termination
  by (relation "measure (\<lambda>(env, dryGain, wetGain, i, n, cs). n - i)") auto

declare offlineLoop.simps [simp del]

text \<open>\<open>offlineContext.startRendering()\<close>, awaited.\<close>

definition startRendering :: "env \<Rightarrow> OfflineAudioContext \<Rightarrow> error + AudioBuffer" where
  "startRendering env context =
     (case renderSamples env context of
        None \<Rightarrow> Inl RenderFailure
      | Some samples \<Rightarrow>
          Inr \<lparr>numberOfChannels = offChannels context, sampleRate = offSampleRate context,
               bufLength = offLength context, getChannelData = samples\<rparr>)"

text \<open>
  The \<open>try\<close> block of \<open>downloadEffect\<close>. The frame count handed to the constructor
  of the offline context is converted to an unsigned 32-bit integer. The anchor element
  and the object URL are not modelled: the click on the anchor is the file reaching the
  browser, and the clean-up after 100 ms is a timer that writes nothing modelled here.
\<close>

definition renderEffect :: "env \<Rightarrow> state \<Rightarrow> (error \<times> state) + state" where
  "renderEffect env s =
     (case audioContext s of
        None \<Rightarrow> Inl (TypeError, s)
      | Some ctx \<Rightarrow>
          (let frames = (ctxSampleRate ctx * EFFECT_DURATION_MS (CONFIG s) div 1000) mod 2 ^ 32
           in if frames = 0 \<or> ctxSampleRate ctx = 0 then Inl (NotSupportedError, s)
              else
               (let offlineContext = \<lparr>offChannels = 2, offLength = frames,
                                       offSampleRate = ctxSampleRate ctx, offGraph = []\<rparr>;
                    (offlineReverb, g) = createConvolver (offGraph offlineContext);
                    (impulse, s) = generateOfflineReverbImpulse env offlineContext s;
                    g = setConvolverBuffer offlineReverb impulse g;
                    (dryGain, g) = createGain g;
                    (wetGain, g) = createGain g;
                    g = setGainValue dryGain (dround (1 - REVERB_WET_MIX (CONFIG s))) g;
                    g = setGainValue wetGain (REVERB_WET_MIX (CONFIG s)) g;
                    g = connect dryGain Destination g;
                    g = connect wetGain (Node offlineReverb) g;
                    g = connect offlineReverb Destination g
                in andThen (offlineLoop env dryGain wetGain 0 (VOICE_COUNT (CONFIG s))
                              (offlineContext\<lparr>offGraph := g\<rparr>, s)) (\<lambda>(offlineContext, s).
                   (let s = updateStatus ''Rendering audio...'' False s
                    in andThen (raising s (startRendering env offlineContext)) (\<lambda>renderedBuffer.
                       (let s = updateStatus ''Encoding WAV file...'' False s
                        in andThen (raising s (bufferToWav renderedBuffer)) (\<lambda>wavBlob.
                           (let s = s\<lparr>downloads := downloads s @ [(''gibbering_mouther.wav'', wavBlob)]\<rparr>;
                                s = setTimeout RemoveDownloadLink 100 s
                            in Inr (updateStatus ''Effect downloaded successfully!'' False s))))))))))"

definition downloadEffect :: "env \<Rightarrow> state \<Rightarrow> state" where
  "downloadEffect env s =
     (if recordedBuffer s = None then s
      else (let s = updateStatus ''Generating effect for download...'' False s;
                s = s\<lparr>downloadButtonDisabled := True\<rparr>;
                s = (case renderEffect env s of
                       Inr s' \<Rightarrow> s'
                     | Inl (e, s') \<Rightarrow> updateStatus ''Error generating download'' False s')
            in s\<lparr>downloadButtonDisabled := False\<rparr>))"

subsection \<open>The event loop\<close>

text \<open>
  A timer callback runs when its time has come; an exception it throws is reported to
  the console and ends that callback only.
\<close>

definition fire :: "env \<Rightarrow> timer \<Rightarrow> state \<Rightarrow> state" where
  "fire env tm s =
     (let s = s\<lparr>nowMs := max (nowMs s) (due tm)\<rparr>
      in case callback tm of
           SpawnVoice dryGain wetGain continuousMode \<Rightarrow>
             (case createVoice env dryGain wetGain continuousMode s of
                Inl (e, s') \<Rightarrow> s'
              | Inr s' \<Rightarrow> s')
         | RemoveDownloadLink \<Rightarrow> s)"

text \<open>
  Time passes until \<open>t\<close>: the timers due by then run in the order of their due times,
  those set earlier first among equals. No callback of the page sets a timer.
\<close>

definition advance :: "env \<Rightarrow> real \<Rightarrow> state \<Rightarrow> state" where
  "advance env t s =
     (let dueNow = sort_key due (filter (\<lambda>tm. due tm \<le> t) (timers s));
          s = s\<lparr>timers := filter (\<lambda>tm. \<not> due tm \<le> t) (timers s)\<rparr>;
          s = fold (fire env) dueNow s
      in s\<lparr>nowMs := max (nowMs s) t\<rparr>)"

text \<open>
  The click handlers. A button that is hidden or disabled receives no click; an
  exception that leaves a handler is reported and the page goes on.
\<close>

definition clickPlay :: "env \<Rightarrow> state \<Rightarrow> state" where
  "clickPlay env s =
     (if playButtonDisplay s = ''none'' \<or> playButtonDisabled s then s
      else (case playGibberingEffect env s of Inl (e, s') \<Rightarrow> s' | Inr s' \<Rightarrow> s'))"

definition clickStop :: "env \<Rightarrow> state \<Rightarrow> state" where
  "clickStop env s =
     (if stopButtonDisplay s = ''none'' then s
      else (case stopAllSources env s of
              Inl e \<Rightarrow> s
            | Inr s \<Rightarrow>
                updateStatus ''Playback stopped. Ready to play again!'' False
                  (s\<lparr>stopButtonDisplay := ''none'', playButtonDisplay := ''block'',
                     playButtonDisabled := False, downloadButtonDisabled := False\<rparr>)))"

definition clickDownload :: "env \<Rightarrow> state \<Rightarrow> state" where
  "clickDownload env s = (if downloadButtonDisabled s then s else downloadEffect env s)"

datatype event =
  ClickPlay | ClickStop | ClickDownload | Elapse real | Finishes nat | Ended nat

fun step :: "env \<Rightarrow> state \<Rightarrow> event \<Rightarrow> state" where
  "step env s ClickPlay = clickPlay env s"
| "step env s ClickStop = clickStop env s"
| "step env s ClickDownload = clickDownload env s"
| "step env s (Elapse t) = advance env t s"
| "step env s (Finishes source) = finishPlayback source s"
| "step env s (Ended source) = onended source s"

definition run :: "env \<Rightarrow> state \<Rightarrow> event list \<Rightarrow> state" where
  "run env s events = foldl (step env) s events"

text \<open>
  The bus a voice feeds: the outputs of the per-voice gain node its source is connected
  to. The dry and wet gain nodes are made anew by every \<open>playGibberingEffect\<close>, so the
  bus tells which invocation a voice belongs to.
\<close>

definition outputsOf :: "node list \<Rightarrow> nat \<Rightarrow> target list" where
  "outputsOf g n =
     (if n < length g
      then (case g ! n of Gain v outs \<Rightarrow> outs | Convolver b outs \<Rightarrow> outs | Source b outs \<Rightarrow> outs)
      else [])"

definition voiceBus :: "node list \<Rightarrow> nat \<Rightarrow> target list" where
  "voiceBus g source =
     (case outputsOf g source of [Node gainNode] \<Rightarrow> outputsOf g gainNode | _ \<Rightarrow> [])"

section \<open>The specification's side\<close>

text \<open>
  The sample value as the specification words it: \<open>round(clamp(sample,-1,1) * 32767)\<close>.
\<close>

definition specSample :: "real \<Rightarrow> int" where
  "specSample x = round (max (- 1) (min 1 x) * 32767)"

text \<open>
  Decoding a header back to (frames, channels, sample rate): the frame count is the
  data size divided by the block align.
\<close>

definition decodeHeader :: "byte list \<Rightarrow> error + nat \<times> nat \<times> nat" where
  "decodeHeader view =
     andThen (getUint32 view 40 True) (\<lambda>dataSize.
     andThen (getUint16 view 32 True) (\<lambda>blockAlign.
     andThen (getUint16 view 22 True) (\<lambda>channels.
     andThen (getUint32 view 24 True) (\<lambda>rate.
       if blockAlign = 0 then Inl RangeError
       else Inr (dataSize div blockAlign, channels, rate)))))"

section \<open>Concrete inputs\<close>

text \<open>A stereo buffer of two frames: channel 0 holds 1.5 and 1, channel 1 holds -2 and -1.\<close>

definition exampleBuffer :: AudioBuffer where
  "exampleBuffer =
     \<lparr>numberOfChannels = 2, sampleRate = 44100, bufLength = 2,
      getChannelData = (\<lambda>channel j.
        if channel = 0 then (if j = 0 then 3 / 2 else 1)
        else (if j = 0 then - 2 else - 1))\<rparr>"

text \<open>A mono buffer of one frame holding 0.25.\<close>

definition quarterBuffer :: AudioBuffer where
  "quarterBuffer =
     \<lparr>numberOfChannels = 1, sampleRate = 44100, bufLength = 1,
      getChannelData = (\<lambda>channel j. 1 / 4)\<rparr>"

text \<open>Silence in mono, 25000 frames long: three chunks for the chunked encoder.\<close>

definition longBuffer :: AudioBuffer where
  "longBuffer =
     \<lparr>numberOfChannels = 1, sampleRate = 44100, bufLength = 25000,
      getChannelData = (\<lambda>channel j. 0)\<rparr>"

text \<open>Silence in stereo at 48 kHz, \<open>2^30\<close> frames long: \<open>2^32\<close> bytes of samples.\<close>

definition hugeBuffer :: AudioBuffer where
  "hugeBuffer =
     \<lparr>numberOfChannels = 2, sampleRate = 48000, bufLength = 1073741824,
      getChannelData = (\<lambda>channel j. 0)\<rparr>"

text \<open>The \<open>CONFIG\<close> literal of \<open>src/app.js\<close>, and the same with the voice count at 1.\<close>

definition defaultConfig :: config where
  "defaultConfig =
     \<lparr>VOICE_COUNT = 40, PITCH_MIN = 0.2, PITCH_MAX = 1.5, STAGGER_MAX_MS = 800,
      GAIN_MIN = 0.3, GAIN_MAX = 1.0, EFFECT_DURATION_MS = 15000,
      REVERB_WET_MIX = 0.5, LOOP_PROBABILITY = 0.3\<rparr>"

definition oneVoiceConfig :: config where
  "oneVoiceConfig = defaultConfig\<lparr>VOICE_COUNT := 1\<rparr>"

text \<open>
  The page as loaded: the module-level variables at their initial values, no timer
  pending, only the record button usable.
\<close>

definition initialState :: state where
  "initialState =
     \<lparr>CONFIG = defaultConfig, audioContext = None, reverbNode = None,
      recordedBuffer = None, currentPlayingSources = [], graph = [], timers = [],
      nowMs = 0, draws = 0, statusText = [], statusInitialized = False,
      playButtonDisplay = ''block'', playButtonDisabled = True,
      stopButtonDisplay = ''none'', downloadButtonDisabled = True, downloads = [],
      clockLead = 0, clockReads = 0\<rparr>"

text \<open>
  Four environments. In the first \<open>Math.random\<close> always returns 0.5 and the clock of
  the context stands still while a task runs. The second is an engine that rejects a
  repeated \<open>stop()\<close>. In the third the draws numbered 192000 and 192001, the first two
  made after the impulse response of a 48 kHz context, are 0.875 and 0.0125. In the
  fourth one render quantum is completed between the first read of the clock and the
  second.
\<close>

definition exampleEnv :: env where
  "exampleEnv =
     \<lparr>random = (\<lambda>n. 1 / 2), legacyStop = False,
      renderSamples = (\<lambda>context. Some (\<lambda>channel j. 0)),
      quantaRendered = (\<lambda>n. 0)\<rparr>"

definition legacyEnv :: env where
  "legacyEnv = exampleEnv\<lparr>legacyStop := True\<rparr>"

definition staggerEnv :: env where
  "staggerEnv =
     exampleEnv\<lparr>random := (\<lambda>n. if n = 192000 then 7 / 8 else if n = 192001 then 1 / 80 else 1 / 2)\<rparr>"


text \<open>
  The page after the audio context was initialised at \<open>rate\<close> hertz with one voice
  configured and \<open>exampleBuffer\<close> recorded.
\<close>

definition readyState :: "env \<Rightarrow> nat \<Rightarrow> state" where
  "readyState env rate =
     processRecording (Inr exampleBuffer)
       (initAudioContext env rate (initialState\<lparr>CONFIG := oneVoiceConfig\<rparr>))"

text \<open>
  The same page with the wet mix at 0.1, that is, at the double nearest to one tenth.
\<close>

definition tenthMixState :: state where
  "tenthMixState =
     (readyState exampleEnv 48000)
       \<lparr>CONFIG := oneVoiceConfig\<lparr>REVERB_WET_MIX := 3602879701896397 / 36028797018963968\<rparr>\<rparr>"

text \<open>
  Play at 0 ms with a stagger of 700 ms, stop at 100 ms, play again at 200 ms with a
  stagger of 10 ms, then wait until 1000 ms.
\<close>

definition overlapTrace :: "event list" where
  "overlapTrace = [ClickPlay, Elapse 100, ClickStop, Elapse 200, ClickPlay, Elapse 1000]"

text \<open>
  One voice plays and comes to its end; its \<open>onended\<close> handler has not run yet, so
  the source is still in the active set.
\<close>

definition endedVoiceTrace :: "event list" where
  "endedVoiceTrace = [ClickPlay, Elapse 1000, Finishes 3]"

section \<open>Properties of the WAV encoder\<close>

subsection \<open>Auxiliary facts\<close>

lemma andThen_Inr [simp]: "andThen (Inr v) f = f v"
  by (simp add: andThen_def)

lemma andThen_Inl [simp]: "andThen (Inl e) f = Inl e"
  by (simp add: andThen_def)

lemma andThen_return [simp]: "andThen r Inr = r"
  by (cases r) simp_all

lemma andThen_assoc: "andThen (andThen r f) g = andThen r (\<lambda>v. andThen (f v) g)"
  by (cases r) simp_all

lemma nat_bytes2:
  fixes x :: nat
  assumes "x < 65536"
  shows "x mod 256 + 256 * (x div 256 mod 256) = x"
proof -
  from assms have "x div 256 < 256" by simp
  then show ?thesis by simp
qed

lemma nat_bytes4:
  fixes x :: nat
  assumes "x < 4294967296"
  shows "x mod 256 + 256 * (x div 256 mod 256) + 65536 * (x div 65536 mod 256)
         + 16777216 * (x div 16777216 mod 256) = x"
proof -
  define y where "y = x div 256"
  define z where "z = y div 256"
  define u where "u = z div 256"
  have z: "z = x div 65536" by (simp add: z_def y_def div_mult2_eq)
  have u: "u = x div 16777216" by (simp add: u_def z div_mult2_eq)
  from assms have "u < 256" by (simp add: u)
  then have u': "u mod 256 = u" by simp
  have x: "x = x mod 256 + 256 * y" by (simp add: y_def)
  have y: "y = y mod 256 + 256 * z" by (simp add: z_def)
  have z': "z = z mod 256 + 256 * u" by (simp add: u_def)
  have "x mod 256 + 256 * (y mod 256) + 65536 * (z mod 256) + 16777216 * (u mod 256) = x"
    using x y z' u' by linarith
  then show ?thesis unfolding y_def z u .
qed

lemma unat_byte_of:
  fixes w :: "'a::len word"
  shows "unat (ucast (drop_bit n w) :: byte) = unat w div 2 ^ n mod 256"
  by (simp only: unsigned_ucast_eq unat_drop_bit_eq) (simp add: take_bit_eq_mod drop_bit_eq_div)

lemma unat_byte0:
  fixes w :: "'a::len word"
  shows "unat (ucast w :: byte) = unat w mod 256"
  by (simp add: unsigned_ucast_eq take_bit_eq_mod)

lemma pow2_bytes: "(2::nat) ^ 8 = 256" "(2::nat) ^ 16 = 65536" "(2::nat) ^ 24 = 16777216"
  by simp_all

lemma le16_decode:
  fixes w :: "16 word"
  shows "unat (ucast w :: byte) + 256 * unat (ucast (drop_bit 8 w) :: byte) = unat w"
proof -
  have "unat w < 65536" using unsigned_less [of w, where 'a = nat] by simp
  then have "unat w mod 256 + 256 * (unat w div 256 mod 256) = unat w"
    by (rule nat_bytes2)
  then show ?thesis
    unfolding unat_byte_of pow2_bytes unfolding unat_byte0 .
qed

lemma le32_decode:
  fixes w :: "32 word"
  shows "unat (ucast w :: byte) + 256 * unat (ucast (drop_bit 8 w) :: byte)
         + 65536 * unat (ucast (drop_bit 16 w) :: byte)
         + 16777216 * unat (ucast (drop_bit 24 w) :: byte) = unat w"
proof -
  have "unat w < 4294967296" using unsigned_less [of w, where 'a = nat] by simp
  then have "unat w mod 256 + 256 * (unat w div 256 mod 256) + 65536 * (unat w div 65536 mod 256)
         + 16777216 * (unat w div 16777216 mod 256) = unat w"
    by (rule nat_bytes4)
  then show ?thesis
    unfolding unat_byte_of pow2_bytes unfolding unat_byte0 .
qed


lemma length_put16 [simp]: "length (put16 view off w le) = length view"
  by (simp add: put16_def)

lemma nth_put16_below: "k < off \<Longrightarrow> put16 view off w le ! k = view ! k"
  by (simp add: put16_def)

lemma nth_put16_lo: "off + 2 \<le> length view \<Longrightarrow> put16 view off w True ! off = ucast w"
  by (simp add: put16_def)

lemma nth_put16_hi:
  "off + 2 \<le> length view \<Longrightarrow> put16 view off w True ! Suc off = ucast (drop_bit 8 w)"
  by (simp add: put16_def)

lemma channelLoop_ok:
  "snd st + 2 * (numberOfChannels b - channel) \<le> length (fst st) \<Longrightarrow>
   \<exists>view'. channelLoop b j channel st
             = Inr (view', snd st + 2 * (numberOfChannels b - channel))
      \<and> length view' = length (fst st)
      \<and> (\<forall>k. k < snd st \<longrightarrow> view' ! k = fst st ! k)
      \<and> (\<forall>c. channel \<le> c \<and> c < numberOfChannels b \<longrightarrow>
             view' ! (snd st + 2 * (c - channel))
               = ucast (ToInt16 (max (- 1) (min 1 (getChannelData b c j)) * 32767))
           \<and> view' ! (snd st + 2 * (c - channel) + 1)
               = ucast (drop_bit 8 (ToInt16 (max (- 1) (min 1 (getChannelData b c j)) * 32767))))"
proof (induction b j channel st rule: channelLoop.induct)
  case (1 buffer j channel view offset)
  show ?case
  proof (cases "channel < numberOfChannels buffer")
    case False
    then have "channelLoop buffer j channel (view, offset) = Inr (view, offset)"
      by (simp add: channelLoop.simps)
    with False show ?thesis by auto
  next
    case True
    define w where "w = ToInt16 (max (- 1) (min 1 (getChannelData buffer channel j)) * 32767)"
    define v1 where "v1 = put16 view offset w True"
    have in_range: "offset + 2 \<le> length view" using "1.prems" True by simp
    have step: "channelLoop buffer j channel (view, offset)
                = channelLoop buffer j (channel + 1) (v1, offset + 2)"
      using True in_range
      by (subst channelLoop.simps) (simp add: setInt16_def Let_def v1_def w_def)
    have pre: "snd (v1, offset + 2) + 2 * (numberOfChannels buffer - (channel + 1))
               \<le> length (fst (v1, offset + 2))"
      using "1.prems" True by (simp add: v1_def)
    from "1.IH" [OF True refl refl pre]
    obtain view' where
      run: "channelLoop buffer j (channel + 1) (v1, offset + 2)
            = Inr (view', offset + 2 + 2 * (numberOfChannels buffer - (channel + 1)))"
      and len: "length view' = length v1"
      and below: "\<And>k. k < offset + 2 \<Longrightarrow> view' ! k = v1 ! k"
      and written: "\<And>c. channel + 1 \<le> c \<Longrightarrow> c < numberOfChannels buffer \<Longrightarrow>
             view' ! (offset + 2 + 2 * (c - (channel + 1)))
               = ucast (ToInt16 (max (- 1) (min 1 (getChannelData buffer c j)) * 32767))
           \<and> view' ! (offset + 2 + 2 * (c - (channel + 1)) + 1)
               = ucast (drop_bit 8 (ToInt16 (max (- 1) (min 1 (getChannelData buffer c j)) * 32767)))"
      by auto
    have off: "offset + 2 + 2 * (numberOfChannels buffer - (channel + 1))
               = offset + 2 * (numberOfChannels buffer - channel)"
      using True by simp
    have a: "channelLoop buffer j channel (view, offset)
             = Inr (view', offset + 2 * (numberOfChannels buffer - channel))"
      using step run off by simp
    have b: "length view' = length view" using len by (simp add: v1_def)
    have c: "\<And>k. k < offset \<Longrightarrow> view' ! k = view ! k"
      using below by (simp add: v1_def nth_put16_below)
    have d: "view' ! (offset + 2 * (c - channel))
               = ucast (ToInt16 (max (- 1) (min 1 (getChannelData buffer c j)) * 32767))
           \<and> view' ! (offset + 2 * (c - channel) + 1)
               = ucast (drop_bit 8 (ToInt16 (max (- 1) (min 1 (getChannelData buffer c j)) * 32767)))"
      if "channel \<le> c" "c < numberOfChannels buffer" for c
    proof (cases "c = channel")
      case True
      have "view' ! offset = v1 ! offset" "view' ! (offset + 1) = v1 ! (offset + 1)"
        using below by simp_all
      then show ?thesis
        using True in_range by (simp add: v1_def w_def nth_put16_lo nth_put16_hi)
    next
      case False
      with that have ge: "channel + 1 \<le> c" by simp
      then obtain d where cd: "c = channel + 1 + d" using le_Suc_ex by blast
      from written [OF ge that(2)] show ?thesis by (simp add: cd)
    qed
    show ?thesis using a b c d by simp
  qed
qed



lemma frameLoop_ok:
  "snd st + 2 * (numberOfChannels b * (endFrame - j)) \<le> length (fst st) \<Longrightarrow>
   \<exists>view'. frameLoop b j endFrame st
             = Inr (view', snd st + 2 * (numberOfChannels b * (endFrame - j)))
      \<and> length view' = length (fst st)
      \<and> (\<forall>k. k < snd st \<longrightarrow> view' ! k = fst st ! k)
      \<and> (\<forall>j' c. j \<le> j' \<and> j' < endFrame \<and> c < numberOfChannels b \<longrightarrow>
             view' ! (snd st + 2 * ((j' - j) * numberOfChannels b + c))
               = ucast (ToInt16 (max (- 1) (min 1 (getChannelData b c j')) * 32767))
           \<and> view' ! (snd st + 2 * ((j' - j) * numberOfChannels b + c) + 1)
               = ucast (drop_bit 8 (ToInt16 (max (- 1) (min 1 (getChannelData b c j')) * 32767))))"
proof (induction b j endFrame st rule: frameLoop.induct)
  case (1 buffer j endFrame st)
  obtain view offset where st: "st = (view, offset)" by (cases st)
  define C where "C = numberOfChannels buffer"
  show ?case
  proof (cases "j < endFrame")
    case False
    then have "frameLoop buffer j endFrame st = Inr st"
      by (simp add: frameLoop.simps)
    with False show ?thesis by (auto simp: st)
  next
    case True
    then obtain m where m: "endFrame - j = Suc m" "endFrame - Suc j = m"
      by (cases "endFrame - j") auto
    have room: "offset + 2 * C + 2 * (C * m) \<le> length view"
      using "1.prems" by (simp add: st m C_def algebra_simps)
    from channelLoop_ok [of "(view, offset)" buffer 0 j]
    obtain v1 where
      run1: "channelLoop buffer j 0 (view, offset) = Inr (v1, offset + 2 * C)"
      and len1: "length v1 = length view"
      and below1: "\<And>k. k < offset \<Longrightarrow> v1 ! k = view ! k"
      and written1: "\<And>c. c < C \<Longrightarrow>
             v1 ! (offset + 2 * c)
               = ucast (ToInt16 (max (- 1) (min 1 (getChannelData buffer c j)) * 32767))
           \<and> v1 ! (offset + 2 * c + 1)
               = ucast (drop_bit 8 (ToInt16 (max (- 1) (min 1 (getChannelData buffer c j)) * 32767)))"
      using room by (auto simp: C_def)
    have pre: "snd (v1, offset + 2 * C) + 2 * (numberOfChannels buffer * (endFrame - (j + 1)))
               \<le> length (fst (v1, offset + 2 * C))"
      using room by (simp add: m len1 C_def)
    from "1.IH" [OF True pre]
    obtain view' where
      run: "frameLoop buffer (j + 1) endFrame (v1, offset + 2 * C)
            = Inr (view', offset + 2 * C + 2 * (C * m))"
      and len: "length view' = length v1"
      and below: "\<And>k. k < offset + 2 * C \<Longrightarrow> view' ! k = v1 ! k"
      and written: "\<And>j' c. j + 1 \<le> j' \<Longrightarrow> j' < endFrame \<Longrightarrow> c < C \<Longrightarrow>
             view' ! (offset + 2 * C + 2 * ((j' - (j + 1)) * C + c))
               = ucast (ToInt16 (max (- 1) (min 1 (getChannelData buffer c j')) * 32767))
           \<and> view' ! (offset + 2 * C + 2 * ((j' - (j + 1)) * C + c) + 1)
               = ucast (drop_bit 8 (ToInt16 (max (- 1) (min 1 (getChannelData buffer c j')) * 32767)))"
      by (auto simp: m C_def)
    have a: "frameLoop buffer j endFrame st
             = Inr (view', snd st + 2 * (numberOfChannels buffer * (endFrame - j)))"
      using True run1 run
      by (subst frameLoop.simps) (simp add: st m C_def algebra_simps)
    have b: "length view' = length (fst st)" using len len1 by (simp add: st)
    have c: "\<And>k. k < snd st \<Longrightarrow> view' ! k = fst st ! k"
      using below below1 by (simp add: st)
    have d: "view' ! (snd st + 2 * ((j' - j) * numberOfChannels buffer + c))
               = ucast (ToInt16 (max (- 1) (min 1 (getChannelData buffer c j')) * 32767))
           \<and> view' ! (snd st + 2 * ((j' - j) * numberOfChannels buffer + c) + 1)
               = ucast (drop_bit 8 (ToInt16 (max (- 1) (min 1 (getChannelData buffer c j')) * 32767)))"
      if "j \<le> j'" "j' < endFrame" "c < numberOfChannels buffer" for j' c
    proof (cases "j' = j")
      case True
      have lt: "offset + 2 * c < offset + 2 * C" "offset + 2 * c + 1 < offset + 2 * C"
        using that(3) by (simp_all add: C_def)
      have "view' ! (offset + 2 * c) = v1 ! (offset + 2 * c)"
           "view' ! (offset + 2 * c + 1) = v1 ! (offset + 2 * c + 1)"
        using below [OF lt(1)] below [OF lt(2)] by simp_all
      with written1 [of c] that(3) show ?thesis by (simp add: True st C_def)
    next
      case False
      with that have ge: "j + 1 \<le> j'" by simp
      then obtain d where jd: "j' = j + 1 + d" using le_Suc_ex by blast
      from written [OF ge that(2), of c] that(3)
      show ?thesis by (simp add: jd st C_def algebra_simps)
    qed
    show ?thesis using a b c d by simp
  qed
qed


lemma frameLoop_done: "endFrame \<le> j \<Longrightarrow> frameLoop b j endFrame st = Inr st"
  by (simp add: frameLoop.simps)

lemma frameLoop_split:
  "j \<le> m \<Longrightarrow> m \<le> e \<Longrightarrow>
   andThen (frameLoop b j m st) (frameLoop b m e) = frameLoop b j e st"
proof (induction b j m st rule: frameLoop.induct)
  case (1 buffer j m st)
  show ?case
  proof (cases "j < m")
    case False
    with "1.prems" have "j = m" by simp
    then show ?thesis by (simp add: frameLoop_done)
  next
    case True
    with "1.prems" have je: "j < e" by simp
    have IH: "andThen (frameLoop buffer (Suc j) m x) (frameLoop buffer m e)
              = frameLoop buffer (Suc j) e x" for x
      using "1.IH" [OF True] True "1.prems" by simp
    have "andThen (frameLoop buffer j m st) (frameLoop buffer m e)
          = andThen (channelLoop buffer j 0 st)
              (\<lambda>x. andThen (frameLoop buffer (j + 1) m x) (frameLoop buffer m e))"
      using True by (subst frameLoop.simps) (simp add: andThen_assoc)
    also have "\<dots> = andThen (channelLoop buffer j 0 st) (frameLoop buffer (j + 1) e)"
      by (simp add: IH)
    also have "\<dots> = frameLoop buffer j e st"
      using je frameLoop.simps [of buffer j e st] by simp
    finally show ?thesis .
  qed
qed

lemma chunkLoop_frameLoop:
  "andThen (chunkLoop b i sy) (\<lambda>(st', yields'). Inr st')
   = frameLoop b i (bufLength b) (fst sy)"
proof (induction b i sy rule: chunkLoop.induct)
  case (1 buffer i st yields)
  show ?case
  proof (cases "i < bufLength buffer")
    case False
    then show ?thesis by (simp add: chunkLoop.simps frameLoop_done)
  next
    case True
    define e where "e = min (i + chunkSize) (bufLength buffer)"
    have ie: "i \<le> e" "e \<le> bufLength buffer" using True by (simp_all add: e_def)
    define y where "y = (if i + chunkSize < bufLength buffer then yields + 1 else yields)"
    have rest: "andThen (chunkLoop buffer (i + chunkSize) (x, y)) (\<lambda>(st', yields'). Inr st')
                = frameLoop buffer e (bufLength buffer) x" for x
    proof (cases "i + chunkSize \<le> bufLength buffer")
      case le: True
      then have "e = i + chunkSize" by (simp add: e_def)
      with "1.IH" [OF True refl, of x] show ?thesis by (simp add: y_def)
    next
      case False
      then have "e = bufLength buffer" by (simp add: e_def)
      moreover have "chunkLoop buffer (i + chunkSize) (x, y) = Inr (x, y)"
        using False by (simp add: chunkLoop.simps)
      ultimately show ?thesis by (simp add: frameLoop_done)
    qed
    have "andThen (chunkLoop buffer i (st, yields)) (\<lambda>(st', yields'). Inr st')
          = andThen (frameLoop buffer i e st) (frameLoop buffer e (bufLength buffer))"
      using True
      by (subst chunkLoop.simps)
         (simp add: Let_def andThen_assoc rest e_def [symmetric] y_def [symmetric])
    also have "\<dots> = frameLoop buffer i (bufLength buffer) st"
      using ie by (rule frameLoop_split)
    finally show ?thesis by simp
  qed
qed

lemma unat_of_nat32: "unat (of_nat n :: 32 word) = n mod 4294967296"
  by (simp add: unat_of_nat)

lemma unat_of_nat16: "unat (of_nat n :: 16 word) = n mod 65536"
  by (simp add: unat_of_nat)

lemma writeString4:
  "offset + 4 \<le> length view \<Longrightarrow>
   writeString view offset [a, b, c, d]
   = Inr (view[offset := of_nat (of_char a), Suc offset := of_nat (of_char b),
               Suc (Suc offset) := of_nat (of_char c),
               Suc (Suc (Suc offset)) := of_nat (of_char d)])"
  by (simp add: writeString_def writeStringFrom.simps setUint8_def)

lemma setUint32_le:
  "offset + 4 \<le> length view \<Longrightarrow>
   setUint32 view offset v True
   = Inr (view[offset := ucast (of_nat v :: 32 word),
               offset + 1 := ucast (drop_bit 8 (of_nat v :: 32 word)),
               offset + 2 := ucast (drop_bit 16 (of_nat v :: 32 word)),
               offset + 3 := ucast (drop_bit 24 (of_nat v :: 32 word))])"
  by (simp add: setUint32_def Let_def)

lemma setUint16_le:
  "offset + 2 \<le> length view \<Longrightarrow>
   setUint16 view offset v True
   = Inr (view[offset := ucast (of_nat v :: 16 word),
               offset + 1 := ucast (drop_bit 8 (of_nat v :: 16 word))])"
  by (simp add: setUint16_def put16_def)

lemma unat_sum32: "unat (36 + word_of_nat len :: 32 word) = (36 + len) mod 4294967296"
  using unat_of_nat32 [of "36 + len"] by simp

lemma unat_prod32:
  "unat (word_of_nat rate * word_of_nat nch * 2 :: 32 word) = (rate * nch * 2) mod 4294967296"
  using unat_of_nat32 [of "rate * nch * 2"] by simp

lemma unat_prod16: "unat (word_of_nat nch * 2 :: 16 word) = (nch * 2) mod 65536"
  using unat_of_nat16 [of "nch * 2"] by simp

lemma writeHeader_bytes:
  assumes "44 \<le> length view"
  shows "\<exists>h. writeHeader view nch rate len = Inr h \<and> length h = length view
     \<and> getTag h 0 = map of_char ''RIFF'' \<and> getTag h 8 = map of_char ''WAVE''
     \<and> getTag h 12 = map of_char ''fmt '' \<and> getTag h 36 = map of_char ''data''
     \<and> getUint32 h 4 True = Inr ((36 + len) mod 4294967296)
     \<and> getUint32 h 16 True = Inr 16
     \<and> getUint16 h 20 True = Inr 1
     \<and> getUint16 h 22 True = Inr (nch mod 65536)
     \<and> getUint32 h 24 True = Inr (rate mod 4294967296)
     \<and> getUint32 h 28 True = Inr ((rate * nch * 2) mod 4294967296)
     \<and> getUint16 h 32 True = Inr ((nch * 2) mod 65536)
     \<and> getUint16 h 34 True = Inr 16
     \<and> getUint32 h 40 True = Inr (len mod 4294967296)"
proof -
  from assms have ne: "view \<noteq> []" by auto
  have small: "Suc (Suc 0) = 2" "Suc (Suc (Suc 0)) = 3" by simp_all
  show ?thesis
    using assms ne
    by (simp add: writeHeader_def writeString4 setUint32_le setUint16_le
      getUint32_def getUint16_def getTag_def small le32_decode le16_decode
      unat_of_nat32 unat_of_nat16 unat_sum32 unat_prod32 unat_prod16)
qed

lemma getUint32_agree:
  "length a = length b \<Longrightarrow> (\<And>k. k < n \<Longrightarrow> a ! k = b ! k) \<Longrightarrow> offset + 4 \<le> n \<Longrightarrow>
   getUint32 a offset le = getUint32 b offset le"
  by (simp add: getUint32_def)

lemma getUint16_agree:
  "length a = length b \<Longrightarrow> (\<And>k. k < n \<Longrightarrow> a ! k = b ! k) \<Longrightarrow> offset + 2 \<le> n \<Longrightarrow>
   getUint16 a offset le = getUint16 b offset le"
  by (simp add: getUint16_def)

lemma getTag_agree:
  "(\<And>k. k < n \<Longrightarrow> a ! k = b ! k) \<Longrightarrow> offset + 4 \<le> n \<Longrightarrow>
   getTag a offset = getTag b offset"
  by (simp add: getTag_def)

lemma getInt16_bytes:
  "offset + 2 \<le> length view \<Longrightarrow>
   view ! offset = ucast (w :: 16 word) \<Longrightarrow>
   view ! (offset + 1) = ucast (drop_bit 8 w) \<Longrightarrow>
   getInt16 view offset True = Inr (sint w)"
  by (simp add: getInt16_def getUint16_def le16_decode)

lemma jsTruncate_mono:
  assumes "x \<le> y"
  shows "jsTruncate x \<le> jsTruncate y"
proof (cases "x < 0")
  case xneg: True
  show ?thesis
  proof (cases "y < 0")
    case True
    from assms have "\<lfloor>- y\<rfloor> \<le> \<lfloor>- x\<rfloor>" by (intro floor_mono) simp
    with xneg True show ?thesis by (simp add: jsTruncate_def)
  next
    case False
    from xneg have a: "0 \<le> \<lfloor>- x\<rfloor>" by simp
    from False have b: "0 \<le> \<lfloor>y\<rfloor>" by simp
    have "jsTruncate x = - \<lfloor>- x\<rfloor>" "jsTruncate y = \<lfloor>y\<rfloor>"
      using xneg False by (simp_all add: jsTruncate_def)
    with a b show ?thesis by linarith
  qed
next
  case False
  with assms have "\<not> y < 0" by simp
  with False assms show ?thesis by (simp add: jsTruncate_def floor_mono)
qed

lemma jsTruncate_of_int: "jsTruncate (of_int k) = k"
  by (simp add: jsTruncate_def)

lemma clamp_bounds:
  "- 32767 \<le> max (- 1) (min 1 (x :: real)) * 32767"
  "max (- 1) (min 1 (x :: real)) * 32767 \<le> 32767"
  by (simp_all add: max_def min_def)

lemma jsTruncate_clamp:
  "- 32767 \<le> jsTruncate (max (- 1) (min 1 x) * 32767)"
  "jsTruncate (max (- 1) (min 1 x) * 32767) \<le> 32767"
  using jsTruncate_mono [OF clamp_bounds(1) [of x]] jsTruncate_mono [OF clamp_bounds(2) [of x]]
    jsTruncate_of_int [of "- 32767"] jsTruncate_of_int [of 32767]
  by simp_all

lemma sint_ToInt16:
  "- 32768 \<le> jsTruncate y \<Longrightarrow> jsTruncate y < 32768 \<Longrightarrow> sint (ToInt16 y) = jsTruncate y"
  by (simp add: ToInt16_def sint_sbintrunc' signed_take_bit_int_eq_self)

lemma sint_pcm: "sint (ToInt16 (max (- 1) (min 1 x) * 32767)) = jsTruncate (max (- 1) (min 1 x) * 32767)"
  using jsTruncate_clamp [of x] by (intro sint_ToInt16) simp_all


lemma chunkLoop_result:
  assumes "frameLoop b i (bufLength b) st = Inr st'"
  shows "\<exists>yields'. chunkLoop b i (st, yields) = Inr (st', yields')"
proof (cases "chunkLoop b i (st, yields)")
  case (Inl e)
  with chunkLoop_frameLoop [of b i "(st, yields)"] assms show ?thesis by simp
next
  case (Inr r)
  obtain s2 y2 where r: "r = (s2, y2)" by (cases r)
  with Inr chunkLoop_frameLoop [of b i "(st, yields)"] assms show ?thesis by simp
qed

lemma bufferToWav_bytes:
  fixes b :: AudioBuffer
  defines "C \<equiv> numberOfChannels b" and "L \<equiv> bufLength b" and "R \<equiv> sampleRate b"
  shows "\<exists>view. bufferToWav b = Inr \<lparr>blobBytes = view, blobType = ''audio/wav''\<rparr>
     \<and> bufferToWavSync b = Inr \<lparr>blobBytes = view, blobType = ''audio/wav''\<rparr>
     \<and> length view = 44 + L * C * 2
     \<and> getTag view 0 = map of_char ''RIFF'' \<and> getTag view 8 = map of_char ''WAVE''
     \<and> getTag view 12 = map of_char ''fmt '' \<and> getTag view 36 = map of_char ''data''
     \<and> getUint32 view 4 True = Inr ((36 + L * C * 2) mod 4294967296)
     \<and> getUint32 view 16 True = Inr 16
     \<and> getUint16 view 20 True = Inr 1
     \<and> getUint16 view 22 True = Inr (C mod 65536)
     \<and> getUint32 view 24 True = Inr (R mod 4294967296)
     \<and> getUint32 view 28 True = Inr ((R * C * 2) mod 4294967296)
     \<and> getUint16 view 32 True = Inr ((C * 2) mod 65536)
     \<and> getUint16 view 34 True = Inr 16
     \<and> getUint32 view 40 True = Inr ((L * C * 2) mod 4294967296)
     \<and> (\<forall>j c. j < L \<and> c < C \<longrightarrow>
           getInt16 view (44 + 2 * (j * C + c)) True
           = Inr (jsTruncate (max (- 1) (min 1 (getChannelData b c j)) * 32767)))"
proof -
  define len where "len = L * C * 2"
  define ab where "ab = replicate (44 + len) (0 :: byte)"
  have lab: "44 \<le> length ab" by (simp add: ab_def)
  from writeHeader_bytes [OF lab, of C R len]
  obtain h where
    hdr: "writeHeader ab C R len = Inr h" and lh: "length h = length ab"
    and tags: "getTag h 0 = map of_char ''RIFF''" "getTag h 8 = map of_char ''WAVE''"
      "getTag h 12 = map of_char ''fmt ''" "getTag h 36 = map of_char ''data''"
    and f4: "getUint32 h 4 True = Inr ((36 + len) mod 4294967296)"
    and f16: "getUint32 h 16 True = Inr 16"
    and f20: "getUint16 h 20 True = Inr 1"
    and f22: "getUint16 h 22 True = Inr (C mod 65536)"
    and f24: "getUint32 h 24 True = Inr (R mod 4294967296)"
    and f28: "getUint32 h 28 True = Inr ((R * C * 2) mod 4294967296)"
    and f32: "getUint16 h 32 True = Inr ((C * 2) mod 65536)"
    and f34: "getUint16 h 34 True = Inr 16"
    and f40: "getUint32 h 40 True = Inr (len mod 4294967296)"
    by blast
  have room: "snd (h, 44 :: nat) + 2 * (numberOfChannels b * (bufLength b - 0)) \<le> length (fst (h, 44 :: nat))"
    by (simp add: lh ab_def len_def C_def L_def)
  from frameLoop_ok [OF room]
  obtain view where
    run: "frameLoop b 0 L (h, 44) = Inr (view, 44 + 2 * (C * L))"
    and lv: "length view = length h"
    and below: "\<And>k. k < 44 \<Longrightarrow> view ! k = h ! k"
    and written: "\<And>j c. j < L \<Longrightarrow> c < C \<Longrightarrow>
             view ! (44 + 2 * (j * C + c))
               = ucast (ToInt16 (max (- 1) (min 1 (getChannelData b c j)) * 32767))
           \<and> view ! (44 + 2 * (j * C + c) + 1)
               = ucast (drop_bit 8 (ToInt16 (max (- 1) (min 1 (getChannelData b c j)) * 32767)))"
    by (auto simp: C_def L_def)
  from chunkLoop_result [OF run [unfolded L_def], of 0]
  obtain yields where chunk: "chunkLoop b 0 ((h, 44), 0) = Inr ((view, 44 + 2 * (C * L)), yields)"
    unfolding L_def by blast
  have async: "bufferToWav b = Inr \<lparr>blobBytes = view, blobType = ''audio/wav''\<rparr>"
    using hdr chunk
    by (simp add: bufferToWav_def Let_def C_def [symmetric] R_def [symmetric] L_def [symmetric]
        len_def [symmetric] ab_def [symmetric])
  have sync: "bufferToWavSync b = Inr \<lparr>blobBytes = view, blobType = ''audio/wav''\<rparr>"
    using hdr run
    by (simp add: bufferToWavSync_def Let_def C_def [symmetric] R_def [symmetric] L_def [symmetric]
        len_def [symmetric] ab_def [symmetric])
  have lview: "length view = 44 + L * C * 2" by (simp add: lv lh ab_def len_def)
  have lens: "length view = length h" by (rule lv)
  have samples: "getInt16 view (44 + 2 * (j * C + c)) True
           = Inr (jsTruncate (max (- 1) (min 1 (getChannelData b c j)) * 32767))"
    if "j < L" "c < C" for j c
  proof -
    have "j * C + c < L * C"
    proof -
      have "j * C + c < j * C + C" using that(2) by simp
      also have "\<dots> = Suc j * C" by simp
      also have "\<dots> \<le> L * C" using that(1) by (intro mult_le_mono1) simp
      finally show ?thesis .
    qed
    then have "44 + 2 * (j * C + c) + 2 \<le> length view" by (simp add: lview)
    from getInt16_bytes [OF this] written [OF that]
    show ?thesis by (simp add: sint_pcm)
  qed
  show ?thesis
    using async sync lview samples
      getTag_agree [of 44 view h, OF below] tags
      getUint32_agree [OF lens below] getUint16_agree [OF lens below]
      f4 f16 f20 f22 f24 f28 f32 f34 f40
    by (simp add: len_def)
qed

subsection \<open>The claims about the encoder\<close>

text \<open>
  Claim C3. For every buffer the chunked encoder of \<open>src/app.js\<close>, which works through
  the frames 10000 at a time and yields between chunks, and the straight-line encoder of
  the earlier revision both return, and they return the same blob: the chunk boundaries
  do not show in the bytes.
\<close>

theorem bufferToWav_chunking:
  "\<exists>blob. bufferToWav buffer = Inr blob \<and> bufferToWavSync buffer = Inr blob"
  using bufferToWav_bytes [of buffer] by blast

text \<open>A buffer of 25000 frames is encoded in three chunks, to the same 50044 bytes.\<close>

theorem bufferToWav_chunking_witness:
  "\<exists>blob. bufferToWav longBuffer = Inr blob \<and> bufferToWavSync longBuffer = Inr blob
     \<and> length (blobBytes blob) = 50044"
proof -
  from bufferToWav_chunking [of longBuffer] obtain blob where
    b: "bufferToWav longBuffer = Inr blob" "bufferToWavSync longBuffer = Inr blob" by blast
  from bufferToWav_bytes [of longBuffer] b(1)
  have "length (blobBytes blob) = 50044" by (auto simp: longBuffer_def)
  with b show ?thesis by blast
qed

text \<open>
  Claim C10. Every 16-bit sample the encoder writes, read back as a signed little-endian
  value at the place of frame \<open>j\<close> and channel \<open>c\<close>, lies between -32767 and 32767;
  -32768 does not occur, and a sample of exactly -1 is written as -32767.
\<close>

theorem sample_range:
  assumes "j < bufLength b" and "c < numberOfChannels b"
  shows "\<exists>view v. bufferToWav b = Inr \<lparr>blobBytes = view, blobType = ''audio/wav''\<rparr>
     \<and> getInt16 view (44 + 2 * (j * numberOfChannels b + c)) True = Inr v
     \<and> - 32767 \<le> v \<and> v \<le> 32767 \<and> v \<noteq> - 32768
     \<and> (getChannelData b c j = - 1 \<longrightarrow> v = - 32767)"
proof -
  define v where "v = jsTruncate (max (- 1) (min 1 (getChannelData b c j)) * 32767)"
  from bufferToWav_bytes [of b] assms obtain view where
    "bufferToWav b = Inr \<lparr>blobBytes = view, blobType = ''audio/wav''\<rparr>"
    "getInt16 view (44 + 2 * (j * numberOfChannels b + c)) True = Inr v"
    unfolding v_def by blast
  moreover have "- 32767 \<le> v" "v \<le> 32767"
    using jsTruncate_clamp [of "getChannelData b c j"] by (simp_all add: v_def)
  moreover have "getChannelData b c j = - 1 \<longrightarrow> v = - 32767"
    by (simp add: v_def jsTruncate_def)
  ultimately show ?thesis by force
qed

text \<open>In \<open>exampleBuffer\<close> the sample of frame 1, channel 1 is -1: it is written as -32767.\<close>

theorem sample_range_witness:
  "\<exists>view. bufferToWav exampleBuffer = Inr \<lparr>blobBytes = view, blobType = ''audio/wav''\<rparr>
     \<and> getInt16 view 50 True = Inr (- 32767)"
  using sample_range [of 1 exampleBuffer 1] by (auto simp: exampleBuffer_def)

text \<open>
  Claim C2, as amended. The value written for a sample \<open>x\<close> is
  \<open>clamp(x, -1, 1) * 32767\<close> truncated towards zero (the conversion \<open>setInt16\<close>
  applies), not rounded to nearest. Every sample of 1 or more, so 1.5 as well as 1.0, is
  written as 32767, and every sample of -1 or less, so -2.0 as well as -1.0, as -32767.
\<close>

theorem sample_truncation:
  assumes "j < bufLength b" and "c < numberOfChannels b"
  shows "\<exists>view. bufferToWav b = Inr \<lparr>blobBytes = view, blobType = ''audio/wav''\<rparr>
     \<and> getInt16 view (44 + 2 * (j * numberOfChannels b + c)) True
         = Inr (jsTruncate (max (- 1) (min 1 (getChannelData b c j)) * 32767))
     \<and> (1 \<le> getChannelData b c j \<longrightarrow>
           getInt16 view (44 + 2 * (j * numberOfChannels b + c)) True = Inr 32767)
     \<and> (getChannelData b c j \<le> - 1 \<longrightarrow>
           getInt16 view (44 + 2 * (j * numberOfChannels b + c)) True = Inr (- 32767))"
proof -
  from bufferToWav_bytes [of b] assms obtain view where
    v: "bufferToWav b = Inr \<lparr>blobBytes = view, blobType = ''audio/wav''\<rparr>"
    "getInt16 view (44 + 2 * (j * numberOfChannels b + c)) True
       = Inr (jsTruncate (max (- 1) (min 1 (getChannelData b c j)) * 32767))"
    by blast
  have hi: "1 \<le> getChannelData b c j \<Longrightarrow>
      jsTruncate (max (- 1) (min 1 (getChannelData b c j)) * 32767) = 32767"
    by (simp add: jsTruncate_def min_def max_def)
  have lo: "getChannelData b c j \<le> - 1 \<Longrightarrow>
      jsTruncate (max (- 1) (min 1 (getChannelData b c j)) * 32767) = - 32767"
    by (simp add: jsTruncate_def min_def max_def)
  from v hi lo show ?thesis by auto
qed

text \<open>In \<open>exampleBuffer\<close> channel 0 holds 1.5 and 1.0: both are written as 32767.\<close>

theorem sample_truncation_witness:
  "\<exists>view. bufferToWav exampleBuffer = Inr \<lparr>blobBytes = view, blobType = ''audio/wav''\<rparr>
     \<and> getInt16 view 44 True = Inr 32767 \<and> getInt16 view 48 True = Inr 32767"
proof -
  from sample_truncation [of 0 exampleBuffer 0]
  obtain view where
    a: "bufferToWav exampleBuffer = Inr \<lparr>blobBytes = view, blobType = ''audio/wav''\<rparr>"
    "getInt16 view 44 True = Inr 32767"
    by (auto simp: exampleBuffer_def)
  from sample_truncation [of 1 exampleBuffer 0] a(1)
  have "getInt16 view 48 True = Inr 32767"
    by (auto simp: exampleBuffer_def)
  with a show ?thesis by blast
qed

text \<open>
  The claim as the specification words it fails at a sample of 0.25: the product is
  8191.75, the encoder writes 8191, and rounding gives 8192.
\<close>

theorem sample_rounding_counterexample:
  "getInt16 (blobBytes (projr (bufferToWav quarterBuffer))) 44 True = Inr 8191
   \<and> specSample (getChannelData quarterBuffer 0 0) = 8192"
proof -
  from bufferToWav_bytes [of quarterBuffer]
  obtain view where
    "bufferToWav quarterBuffer = Inr \<lparr>blobBytes = view, blobType = ''audio/wav''\<rparr>"
    "getInt16 view 44 True = Inr (jsTruncate (max (- 1) (min 1 (1 / 4)) * 32767))"
    by (auto simp: quarterBuffer_def)
  moreover have "jsTruncate (max (- 1) (min 1 (1 / 4)) * 32767) = 8191"
    by (simp add: jsTruncate_def)
  moreover have "specSample (getChannelData quarterBuffer 0 0) = 8192"
    by (simp add: specSample_def quarterBuffer_def round_def)
  ultimately show ?thesis by simp
qed

text \<open>
  Claim C1, as amended. For a buffer of \<open>L\<close> frames, \<open>C\<close> channels and sample rate
  \<open>R\<close> whose sizes fit the fixed-width fields of the header
  (\<open>1 \<le> C < 32768\<close>, \<open>36 + L*C*2 < 2^32\<close>, \<open>R*C*2 < 2^32\<close>), the encoder returns
  exactly \<open>44 + L*C*2\<close> bytes; the header holds the tags \<open>RIFF\<close>, \<open>WAVE\<close>,
  \<open>fmt \<close> and \<open>data\<close>, the RIFF chunk size \<open>36 + L*C*2\<close>, the format chunk size
  16, the PCM format tag 1, the channel count \<open>C\<close>, the sample rate \<open>R\<close>, the byte rate
  \<open>R*C*2\<close>, the block align \<open>C*2\<close>, 16 bits per sample and the data size
  \<open>L*C*2\<close>, and it decodes back to \<open>(L, C, R)\<close>.
\<close>

theorem bufferToWav_header:
  assumes "0 < numberOfChannels b" and "numberOfChannels b < 32768"
    and "36 + bufLength b * numberOfChannels b * 2 < 4294967296"
    and "sampleRate b * numberOfChannels b * 2 < 4294967296"
  shows "\<exists>view. bufferToWav b = Inr \<lparr>blobBytes = view, blobType = ''audio/wav''\<rparr>
     \<and> length view = 44 + bufLength b * numberOfChannels b * 2
     \<and> getTag view 0 = map of_char ''RIFF''
     \<and> getUint32 view 4 True = Inr (36 + bufLength b * numberOfChannels b * 2)
     \<and> getTag view 8 = map of_char ''WAVE''
     \<and> getTag view 12 = map of_char ''fmt ''
     \<and> getUint32 view 16 True = Inr 16
     \<and> getUint16 view 20 True = Inr 1
     \<and> getUint16 view 22 True = Inr (numberOfChannels b)
     \<and> getUint32 view 24 True = Inr (sampleRate b)
     \<and> getUint32 view 28 True = Inr (sampleRate b * numberOfChannels b * 2)
     \<and> getUint16 view 32 True = Inr (numberOfChannels b * 2)
     \<and> getUint16 view 34 True = Inr 16
     \<and> getTag view 36 = map of_char ''data''
     \<and> getUint32 view 40 True = Inr (bufLength b * numberOfChannels b * 2)
     \<and> decodeHeader view = Inr (bufLength b, numberOfChannels b, sampleRate b)"
proof -
  from assms(1,4) have rate: "sampleRate b < 4294967296"
    by (cases "numberOfChannels b") auto
  from bufferToWav_bytes [of b] obtain view where
    v: "bufferToWav b = Inr \<lparr>blobBytes = view, blobType = ''audio/wav''\<rparr>"
    "length view = 44 + bufLength b * numberOfChannels b * 2"
    "getTag view 0 = map of_char ''RIFF''" "getTag view 8 = map of_char ''WAVE''"
    "getTag view 12 = map of_char ''fmt ''" "getTag view 36 = map of_char ''data''"
    "getUint32 view 4 True = Inr ((36 + bufLength b * numberOfChannels b * 2) mod 4294967296)"
    "getUint32 view 16 True = Inr 16"
    "getUint16 view 20 True = Inr 1"
    "getUint16 view 22 True = Inr (numberOfChannels b mod 65536)"
    "getUint32 view 24 True = Inr (sampleRate b mod 4294967296)"
    "getUint32 view 28 True = Inr ((sampleRate b * numberOfChannels b * 2) mod 4294967296)"
    "getUint16 view 32 True = Inr ((numberOfChannels b * 2) mod 65536)"
    "getUint16 view 34 True = Inr 16"
    "getUint32 view 40 True = Inr ((bufLength b * numberOfChannels b * 2) mod 4294967296)"
    by blast
  have f: "getUint32 view 4 True = Inr (36 + bufLength b * numberOfChannels b * 2)"
    "getUint16 view 22 True = Inr (numberOfChannels b)"
    "getUint32 view 24 True = Inr (sampleRate b)"
    "getUint32 view 28 True = Inr (sampleRate b * numberOfChannels b * 2)"
    "getUint16 view 32 True = Inr (numberOfChannels b * 2)"
    "getUint32 view 40 True = Inr (bufLength b * numberOfChannels b * 2)"
    using v assms rate by simp_all
  have d: "decodeHeader view = Inr (bufLength b, numberOfChannels b, sampleRate b)"
    using assms(1) by (simp add: decodeHeader_def f)
  from v f d show ?thesis by simp
qed

text \<open>The header of the two-frame stereo example.\<close>

theorem bufferToWav_header_witness:
  "\<exists>view. bufferToWav exampleBuffer = Inr \<lparr>blobBytes = view, blobType = ''audio/wav''\<rparr>
     \<and> length view = 52 \<and> getUint32 view 4 True = Inr 44
     \<and> getUint32 view 28 True = Inr 176400
     \<and> decodeHeader view = Inr (2, 2, 44100)"
  using bufferToWav_header [of exampleBuffer] by (auto simp: exampleBuffer_def)

text \<open>
  The claim without the bounds fails at \<open>2^30\<close> stereo frames: the data take
  \<open>2^32\<close> bytes, the RIFF chunk size \<open>36 + 2^32\<close> is stored as 36 and the data size
  as 0.
\<close>

theorem bufferToWav_header_counterexample:
  "\<not> isl (bufferToWav hugeBuffer)
   \<and> getUint32 (blobBytes (projr (bufferToWav hugeBuffer))) 4 True = Inr 36
   \<and> getUint32 (blobBytes (projr (bufferToWav hugeBuffer))) 40 True = Inr 0
   \<and> 36 + bufLength hugeBuffer * numberOfChannels hugeBuffer * 2 = 4294967332"
proof -
  from bufferToWav_bytes [of hugeBuffer]
  obtain view where
    "bufferToWav hugeBuffer = Inr \<lparr>blobBytes = view, blobType = ''audio/wav''\<rparr>"
    "getUint32 view 4 True = Inr 36" "getUint32 view 40 True = Inr 0"
    by (auto simp: hugeBuffer_def)
  then show ?thesis by (simp add: hugeBuffer_def)
qed

section \<open>Properties of the effect engine\<close>

subsection \<open>Rounding\<close>

lemma roundEven_cases:
  "roundEven y = \<lfloor>y\<rfloor> \<and> y - of_int \<lfloor>y\<rfloor> \<le> 1 / 2
   \<or> roundEven y = \<lfloor>y\<rfloor> + 1 \<and> 1 / 2 \<le> y - of_int \<lfloor>y\<rfloor>"
  by (auto simp: roundEven_def Let_def)

lemma roundEven_error: "\<bar>of_int (roundEven y) - y\<bar> \<le> 1 / 2"
proof -
  have "of_int \<lfloor>y\<rfloor> \<le> y" "y < of_int \<lfloor>y\<rfloor> + 1" by linarith+
  with roundEven_cases [of y] show ?thesis by auto
qed

lemma roundEven_of_int [simp]: "roundEven (of_int n) = n"
  by (simp add: roundEven_def)

lemma roundEven_le: "y \<le> of_int n \<Longrightarrow> roundEven y \<le> n"
proof -
  assume y: "y \<le> of_int n"
  then have f: "\<lfloor>y\<rfloor> \<le> n" by (simp add: floor_le_iff)
  show ?thesis
  proof (cases "\<lfloor>y\<rfloor> = n")
    case True
    with y have "y - of_int \<lfloor>y\<rfloor> \<le> 0" by simp
    with roundEven_cases [of y] True show ?thesis by auto
  next
    case False
    with f have "\<lfloor>y\<rfloor> + 1 \<le> n" by simp
    with roundEven_cases [of y] show ?thesis by auto
  qed
qed

lemma roundEven_ge: "of_int n \<le> y \<Longrightarrow> n \<le> roundEven y"
proof -
  assume "of_int n \<le> y"
  then have "n \<le> \<lfloor>y\<rfloor>" by (simp add: le_floor_iff)
  with roundEven_cases [of y] show ?thesis by auto
qed

lemma pow2_exp_less: "(2::real) powi a \<le> x \<Longrightarrow> x < 2 powi b \<Longrightarrow> a < b"
proof (rule ccontr)
  assume a: "(2::real) powi a \<le> x" "x < 2 powi b" and "\<not> a < b"
  then have "b \<le> a" by simp
  then have "(2::real) powi b \<le> 2 powi a" by (intro power_int_increasing) simp_all
  with a show False by simp
qed

lemma binade_cases: "binade n e0 x = e0 - int n \<or> 2 powi (binade n e0 x) \<le> x"
proof (induction n arbitrary: e0)
  case 0
  then show ?case by simp
next
  case (Suc n)
  show ?case
  proof (cases "2 powi e0 \<le> x")
    case True
    then show ?thesis by simp
  next
    case False
    with Suc.IH [of "e0 - 1"] show ?thesis by auto
  qed
qed

lemma binade_eq:
  "2 powi e \<le> x \<Longrightarrow> x < 2 powi (e + 1) \<Longrightarrow> e \<le> e0 \<Longrightarrow> e0 - e \<le> int n \<Longrightarrow> binade n e0 x = e"
proof (induction n arbitrary: e0)
  case 0
  then show ?case by simp
next
  case (Suc n)
  show ?case
  proof (cases "2 powi e0 \<le> x")
    case True
    from True Suc.prems(2) have "e0 < e + 1" by (rule pow2_exp_less)
    with Suc.prems(3) True show ?thesis by simp
  next
    case False
    with Suc.prems(1) have "e \<noteq> e0" by auto
    with Suc.prems have "binade n (e0 - 1) x = e" by (intro Suc.IH) simp_all
    with False show ?thesis by simp
  qed
qed

lemma binade_upper:
  assumes "x < 2 powi k" and "e0 - int n < k"
  shows "binade n e0 x < k"
  using binade_cases [of n e0 x] assms pow2_exp_less [of "binade n e0 x" x k] by auto

lemma roundTo_unit:
  assumes x: "\<bar>x\<bar> \<le> 1" and e: "emin \<le> 0" "0 \<le> emax" and p: "1 \<le> p"
  shows "\<exists>m. p \<le> m + 1 \<and> (\<bar>x\<bar> < 1 \<and> emin \<le> - 1 \<longrightarrow> p \<le> m)
           \<and> roundTo p emin emax x = of_int (roundEven (x * 2 ^ m)) / 2 ^ m"
proof -
  define b where "b = binade (nat (emax - emin)) emax \<bar>x\<bar>"
  have "\<bar>x\<bar> < 2 powi 1" using x by simp
  moreover have "emax - int (nat (emax - emin)) < 1" using e by simp
  ultimately have b0: "b < 1" unfolding b_def by (rule binade_upper)
  have b1: "b < 0" if "\<bar>x\<bar> < 1" "emin \<le> - 1"
  proof -
    have "\<bar>x\<bar> < 2 powi 0" using that by simp
    moreover have "emax - int (nat (emax - emin)) < 0" using e that by simp
    ultimately show ?thesis unfolding b_def by (rule binade_upper)
  qed
  define m where "m = nat (int p - 1 - b)"
  have m: "b - int p + 1 = - int m" using b0 p by (simp add: m_def)
  have u: "(2::real) powi (b - int p + 1) = 1 / 2 ^ m"
    unfolding m by (simp add: power_int_minus field_simps)
  have "roundTo p emin emax x = of_int (roundEven (x * 2 ^ m)) / 2 ^ m"
    by (simp add: roundTo_def b_def [symmetric] u Let_def)
  moreover have "p \<le> m + 1" using b0 p by (simp add: m_def)
  moreover have "p \<le> m" if "\<bar>x\<bar> < 1" "emin \<le> - 1"
    using b1 [OF that] p by (simp add: m_def)
  ultimately show ?thesis by blast
qed

lemma roundTo_exact:
  assumes x: "\<bar>x\<bar> \<le> 1" and k: "x = of_int k / 2 ^ n" and n: "n \<le> p"
    and e: "emin \<le> - 1" "0 \<le> emax" and p: "1 \<le> p"
  shows "roundTo p emin emax x = x"
proof -
  from roundTo_unit [OF x _ e(2) p, of emin] e(1) obtain m where
    m: "p \<le> m + 1" "\<bar>x\<bar> < 1 \<longrightarrow> p \<le> m"
    "roundTo p emin emax x = of_int (roundEven (x * 2 ^ m)) / 2 ^ m"
    by auto
  have "\<exists>j. x * 2 ^ m = of_int j"
  proof (cases "\<bar>x\<bar> < 1")
    case True
    with m n have "n \<le> m" by simp
    then obtain d where d: "m = n + d" using le_Suc_ex by blast
    have "x * 2 ^ m = of_int (k * 2 ^ d)" by (simp add: k d power_add)
    then show ?thesis by blast
  next
    case False
    with x have "x = 1 \<or> x = - 1" by auto
    then have "x * 2 ^ m = of_int (2 ^ m) \<or> x * 2 ^ m = of_int (- (2 ^ m))" by auto
    then show ?thesis by blast
  qed
  then obtain j where "x * 2 ^ m = of_int j" by blast
  then show ?thesis unfolding m(3) by (simp add: field_simps)
qed

lemma roundTo_error:
  assumes x: "\<bar>x\<bar> \<le> 1" and e: "emin \<le> - 1" "0 \<le> emax" and p: "1 \<le> p"
  shows "\<bar>roundTo p emin emax x - x\<bar> \<le> 1 / 2 ^ (p + 1)"
proof (cases "\<bar>x\<bar> < 1")
  case False
  with x have "x = of_int 1 / 2 ^ 0 \<or> x = of_int (- 1) / 2 ^ 0" by auto
  then have "roundTo p emin emax x = x"
    using roundTo_exact [OF x _ _ e p, of _ 0] by blast
  then show ?thesis by simp
next
  case True
  from roundTo_unit [OF x _ e(2) p, of emin] e(1) True obtain m where
    m: "p \<le> m" "roundTo p emin emax x = of_int (roundEven (x * 2 ^ m)) / 2 ^ m"
    by auto
  have "roundTo p emin emax x - x = (of_int (roundEven (x * 2 ^ m)) - x * 2 ^ m) / 2 ^ m"
    unfolding m(2) by (simp add: field_simps)
  then have "\<bar>roundTo p emin emax x - x\<bar> = \<bar>of_int (roundEven (x * 2 ^ m)) - x * 2 ^ m\<bar> / 2 ^ m"
    by (simp add: abs_divide)
  also have "\<dots> \<le> (1 / 2) / 2 ^ m"
    by (intro divide_right_mono roundEven_error) simp
  also have "\<dots> = 1 / 2 ^ (m + 1)" by simp
  also have "\<dots> \<le> 1 / 2 ^ (p + 1)"
    using m(1) by (intro divide_left_mono power_increasing) simp_all
  finally show ?thesis .
qed

lemma roundTo_range:
  assumes x: "0 \<le> x" "x \<le> 1" and e: "emin \<le> 0" "0 \<le> emax" and p: "1 \<le> p"
  shows "0 \<le> roundTo p emin emax x \<and> roundTo p emin emax x \<le> 1"
proof -
  from x have "\<bar>x\<bar> \<le> 1" by simp
  from roundTo_unit [OF this e p] obtain m where
    m: "roundTo p emin emax x = of_int (roundEven (x * 2 ^ m)) / 2 ^ m" by blast
  have "of_int 0 \<le> x * 2 ^ m" using x by simp
  then have lo: "0 \<le> roundEven (x * 2 ^ m)" by (rule roundEven_ge)
  have "x * 2 ^ m \<le> 1 * 2 ^ m" using x by (intro mult_right_mono) simp_all
  then have "x * 2 ^ m \<le> of_int (2 ^ m)" by simp
  then have hi: "roundEven (x * 2 ^ m) \<le> 2 ^ m" by (rule roundEven_le)
  from hi have "(of_int (roundEven (x * 2 ^ m)) :: real) \<le> of_int (2 ^ m)"
    by (simp only: of_int_le_iff)
  then have "(of_int (roundEven (x * 2 ^ m)) :: real) \<le> 2 ^ m" by simp
  with lo show ?thesis unfolding m by (simp add: field_simps)
qed

lemma mix_sum_error:
  assumes w: "0 \<le> w" "w \<le> 1"
  shows "\<bar>fround (dround (1 - w)) + fround w - 1\<bar> \<le> 1 / 2 ^ 24 + 1 / 2 ^ 54"
proof -
  define d where "d = dround (1 - w)"
  have x: "\<bar>1 - w\<bar> \<le> 1" using w by simp
  have d1: "\<bar>d - (1 - w)\<bar> \<le> 1 / 2 ^ 54"
    unfolding d_def dround_def using roundTo_error [OF x, of "- 1022" 1023 53] by simp
  have dr: "0 \<le> d \<and> d \<le> 1"
    unfolding d_def dround_def using w by (intro roundTo_range) simp_all
  then have "\<bar>d\<bar> \<le> 1" by simp
  then have d2: "\<bar>fround d - d\<bar> \<le> 1 / 2 ^ 25"
    unfolding fround_def using roundTo_error [of d "- 126" 127 24] by simp
  have "\<bar>w\<bar> \<le> 1" using w by simp
  then have d3: "\<bar>fround w - w\<bar> \<le> 1 / 2 ^ 25"
    unfolding fround_def using roundTo_error [of w "- 126" 127 24] by simp
  have "fround d + fround w - 1 = (fround d - d) + (d - (1 - w)) + (fround w - w)" by simp
  then have "\<bar>fround d + fround w - 1\<bar> \<le> \<bar>fround d - d\<bar> + \<bar>d - (1 - w)\<bar> + \<bar>fround w - w\<bar>"
    by linarith
  also have "\<dots> \<le> 1 / 2 ^ 25 + 1 / 2 ^ 54 + 1 / 2 ^ 25"
    using d1 d2 d3 by linarith
  also have "\<dots> = 1 / 2 ^ 24 + 1 / 2 ^ 54" by simp
  finally show ?thesis unfolding d_def .
qed

lemma mix_exact:
  assumes k: "k \<le> 2 ^ 24" and w: "w = real k / 2 ^ 24"
  shows "fround (dround (1 - w)) = 1 - w" "fround w = w"
proof -
  have w01: "0 \<le> w" "w \<le> 1" using k by (simp_all add: w)
  have a: "w = of_int (int k) / 2 ^ 24" by (simp add: w)
  have b: "1 - w = of_int (2 ^ 24 - int k) / 2 ^ 24" by (simp add: w field_simps)
  have "\<bar>w\<bar> \<le> 1" "\<bar>1 - w\<bar> \<le> 1" using w01 by simp_all
  then show "fround w = w" and "fround (dround (1 - w)) = 1 - w"
    unfolding fround_def dround_def
    using roundTo_exact [OF _ a, of 24 "- 126" 127]
      roundTo_exact [OF _ b, of 53 "- 1022" 1023] roundTo_exact [OF _ b, of 24 "- 126" 127]
    by simp_all
qed

lemma roundTo_eval:
  assumes "2 powi e \<le> \<bar>x\<bar>" "\<bar>x\<bar> < 2 powi (e + 1)" "emin \<le> e" "e \<le> emax"
  shows "roundTo p emin emax x
         = 2 powi (e - int p + 1) * of_int (roundEven (x / 2 powi (e - int p + 1)))"
proof -
  have "binade (nat (emax - emin)) emax \<bar>x\<bar> = e"
    using assms by (intro binade_eq) simp_all
  then show ?thesis by (simp add: roundTo_def Let_def)
qed

lemma fround_tenth: "fround (3602879701896397 / 36028797018963968) = 13421773 / 134217728"
  unfolding fround_def
  by (subst roundTo_eval [of "- 4"]) (simp_all add: power_int_minus roundEven_def Let_def)

lemma dround_nine_tenths:
  "dround (1 - 3602879701896397 / 36028797018963968) = 8106479329266893 / 9007199254740992"
  unfolding dround_def
  by (subst roundTo_eval [of "- 1"]) (simp_all add: power_int_minus roundEven_def Let_def)

lemma fround_nine_tenths:
  "fround (8106479329266893 / 9007199254740992) = 7549747 / 8388608"
  unfolding fround_def
  by (subst roundTo_eval [of "- 1"]) (simp_all add: power_int_minus roundEven_def Let_def)

subsection \<open>What the operations compute\<close>

lemma createBufferSource_app:
  "createBufferSource g =
     (length g, g @ [Source \<lparr>sourceBuffer = None, playbackRate = 1, loop = False,
                              startTime = None, stopTime = None, ended = False\<rparr> []])"
  by (simp add: createBufferSource_def)

lemma updSource_new:
  "updSource (length g) f (g @ Source b outs # rest) = g @ Source (f b) outs # rest"
  by (simp add: updSource_def)

lemma getSource_new: "getSource (g @ Source b outs # rest) (length g) = Some b"
  by (simp add: getSource_def)

lemma createGain_app2: "createGain (g @ [x]) = (Suc (length g), g @ [x, Gain 1 []])"
  by (simp add: createGain_def)

lemma setGainValue_new2:
  "setGainValue (Suc (length g)) v (g @ [x, Gain old outs]) = g @ [x, Gain (fround v) outs]"
  by (simp add: setGainValue_def nth_append list_update_append)

lemma connect_new_source:
  "connect (length g) t (g @ Source b outs # rest) = g @ Source b (outs @ [t]) # rest"
  by (simp add: connect_def)

lemma connect_new_gain2:
  "connect (Suc (length g)) t (g @ [x, Gain v outs]) = g @ [x, Gain v (outs @ [t])]"
  by (simp add: connect_def nth_append list_update_append)

lemma currentTime_nonneg:
  assumes "0 \<le> nowMs s"
  shows "\<not> fst (currentTime env c s) < 0"
    and "\<not> fst (currentTime env c (snd (currentTime env c s))) + real d / 1000 < 0"
  using assms by (simp_all add: currentTime_def Let_def add_nonneg_nonneg not_less)


lemmas new_voice_simps = createBufferSource_app updSource_new getSource_new createGain_app2
  setGainValue_new2 connect_new_source connect_new_gain2

lemma createVoice_result:
  assumes ctx: "audioContext s = Some c" and now: "0 \<le> nowMs s"
  shows "createVoice env dryGain wetGain continuousMode s =
     Inr (s\<lparr>graph := graph s @
              [Source \<lparr>sourceBuffer = recordedBuffer s,
                       playbackRate = PITCH_MIN (CONFIG s)
                         + random env (draws s) * (PITCH_MAX (CONFIG s) - PITCH_MIN (CONFIG s)),
                       loop = (continuousMode \<or> random env (draws s + 1) < LOOP_PROBABILITY (CONFIG s)),
                       startTime = Some (fst (currentTime env c s)),
                       stopTime = (if continuousMode then None
                                   else Some (fst (currentTime env c (snd (currentTime env c s)))
                                              + real (EFFECT_DURATION_MS (CONFIG s)) / 1000)),
                       ended = False\<rparr>
                 [Node (Suc (length (graph s)))],
               Gain (fround (GAIN_MIN (CONFIG s)
                       + random env (draws s + (if continuousMode then 1 else 2))
                         * (GAIN_MAX (CONFIG s) - GAIN_MIN (CONFIG s))))
                 [Node dryGain, Node wetGain]],
            draws := draws s + (if continuousMode then 2 else 3),
            currentPlayingSources := currentPlayingSources s @ [length (graph s)],
            clockLead := clockLead s + quantaRendered env (clockReads s)
              + (if continuousMode then 0 else quantaRendered env (Suc (clockReads s))),
            clockReads := clockReads s + (if continuousMode then 1 else 2)\<rparr>)"
proof (cases continuousMode)
  case True
  then show ?thesis
    using currentTime_nonneg(1) [OF now, of env c]
    by (simp add: createVoice_def ctx MathRandom_def currentTime_def new_voice_simps
        sourceStart_def raising_def Let_def)
next
  case False
  then show ?thesis
    using currentTime_nonneg(1) [OF now, of env c]
      currentTime_nonneg(2) [OF now, of env c "EFFECT_DURATION_MS (CONFIG s)"]
    by (simp add: createVoice_def ctx MathRandom_def currentTime_def new_voice_simps
        sourceStart_def sourceStop_def raising_def Let_def)
qed

lemma createOfflineVoice_result:
  assumes delay: "0 \<le> delay"
  shows "createOfflineVoice env context dryGain wetGain delay s =
     Inr (context\<lparr>offGraph := offGraph context @
              [Source \<lparr>sourceBuffer = recordedBuffer s,
                       playbackRate = PITCH_MIN (CONFIG s)
                         + random env (draws s) * (PITCH_MAX (CONFIG s) - PITCH_MIN (CONFIG s)),
                       loop = (random env (draws s + 1) < LOOP_PROBABILITY (CONFIG s)),
                       startTime = Some delay,
                       stopTime = Some (delay + real (EFFECT_DURATION_MS (CONFIG s)) / 1000),
                       ended = False\<rparr>
                 [Node (Suc (length (offGraph context)))],
               Gain (fround (GAIN_MIN (CONFIG s)
                       + random env (draws s + 2) * (GAIN_MAX (CONFIG s) - GAIN_MIN (CONFIG s))))
                 [Node dryGain, Node wetGain]]\<rparr>,
          s\<lparr>draws := draws s + 3\<rparr>)"
proof -
  from delay have t: "\<not> delay < 0"
    "\<not> delay + real (EFFECT_DURATION_MS (CONFIG s)) / 1000 < 0"
    by (simp_all add: add_nonneg_nonneg)
  show ?thesis
    using t
    by (simp add: createOfflineVoice_def MathRandom_def new_voice_simps sourceStart_def
        sourceStop_def raising_def Let_def)
qed

lemma spawnLoop_result:
  "spawnLoop env dryGain wetGain i s =
     s\<lparr>draws := draws s + (VOICE_COUNT (CONFIG s) - i),
       timers := timers s @
         map (\<lambda>k. \<lparr>due = nowMs s
                       + max 0 (random env (draws s + k) * real (STAGGER_MAX_MS (CONFIG s))
                                / 1000 * 1000),
                    callback = SpawnVoice dryGain wetGain True\<rparr>)
           [0..<VOICE_COUNT (CONFIG s) - i]\<rparr>"
proof (induction env dryGain wetGain i s rule: spawnLoop.induct)
  case (1 env dryGain wetGain i s)
  show ?case
  proof (cases "i < VOICE_COUNT (CONFIG s)")
    case False
    then show ?thesis by (subst spawnLoop.simps) simp
  next
    case True
    then obtain m where m: "VOICE_COUNT (CONFIG s) - i = Suc m" "VOICE_COUNT (CONFIG s) - Suc i = m"
      by (cases "VOICE_COUNT (CONFIG s) - i") auto
    have upt: "[0..<Suc m] = 0 # map Suc [0..<m]"
      by (simp add: upt_conv_Cons map_Suc_upt del: upt_Suc)
    define s1 where "s1 = setTimeout (SpawnVoice dryGain wetGain True)
        (random env (draws s) * real (STAGGER_MAX_MS (CONFIG s)) / 1000 * 1000)
        (s\<lparr>draws := draws s + 1\<rparr>)"
    have IH: "spawnLoop env dryGain wetGain (i + 1) s1 =
       s1\<lparr>draws := draws s1 + (VOICE_COUNT (CONFIG s1) - (i + 1)),
         timers := timers s1 @
           map (\<lambda>k. \<lparr>due = nowMs s1
                       + max 0 (random env (draws s1 + k) * real (STAGGER_MAX_MS (CONFIG s1))
                                / 1000 * 1000),
                    callback = SpawnVoice dryGain wetGain True\<rparr>)
           [0..<VOICE_COUNT (CONFIG s1) - (i + 1)]\<rparr>"
      using "1.IH" [OF True refl, of "random env (draws s)" "s\<lparr>draws := draws s + 1\<rparr>", OF _ refl]
      by (simp add: MathRandom_def s1_def)
    have step: "spawnLoop env dryGain wetGain i s = spawnLoop env dryGain wetGain (i + 1) s1"
      using True by (subst spawnLoop.simps) (simp add: MathRandom_def s1_def)
    show ?thesis
      unfolding step IH
      by (simp add: s1_def setTimeout_def m upt comp_def del: upt_Suc)
  qed
qed


lemma length_updSource [simp]: "length (updSource n f g) = length g"
  by (simp add: updSource_def split: node.splits)

lemma length_connect [simp]: "length (connect n t g) = length g"
  by (simp add: connect_def)

lemma sourceStop_length: "sourceStop env n when g = Inr g' \<Longrightarrow> length g' = length g"
  by (auto simp: sourceStop_def split: option.splits if_splits)

lemma stopStep_ok:
  "\<exists>g'. tryCatch (sourceStop env source 0 g) (\<lambda>e. Inr g) = Inr g' \<and> length g' = length g"
  by (cases "sourceStop env source 0 g") (auto simp: tryCatch_def dest: sourceStop_length)

lemma stop_forEach_ok:
  "\<exists>g'. forEach xs (\<lambda>source g. tryCatch (sourceStop env source 0 g) (\<lambda>e. Inr g)) g = Inr g'
        \<and> length g' = length g"
proof (induction xs arbitrary: g)
  case Nil
  then show ?case by simp
next
  case (Cons x xs)
  from stopStep_ok [of env x g] obtain g1 where
    g1: "tryCatch (sourceStop env x 0 g) (\<lambda>e. Inr g) = Inr g1" "length g1 = length g"
    by blast
  from Cons.IH [of g1] g1 show ?case by simp
qed

lemma stop_forEach_throwing:
  "(\<And>source. source \<in> set xs \<Longrightarrow> isl (sourceStop env source 0 g)) \<Longrightarrow>
   forEach xs (\<lambda>source g. tryCatch (sourceStop env source 0 g) (\<lambda>e. Inr g)) g = Inr g"
proof (induction xs)
  case Nil
  then show ?case by simp
next
  case (Cons x xs)
  from Cons.prems [of x] have "tryCatch (sourceStop env x 0 g) (\<lambda>e. Inr g) = Inr g"
    by (cases "sourceStop env x 0 g") (simp_all add: tryCatch_def)
  with Cons show ?case by simp
qed

lemma stopAllSources_ok:
  "\<exists>g'. stopAllSources env s = Inr (s\<lparr>graph := g', currentPlayingSources := []\<rparr>)
        \<and> length g' = length (graph s)"
  using stop_forEach_ok [of "currentPlayingSources s" env "graph s"]
  by (auto simp: stopAllSources_def)

lemma createGain_app: "createGain g = (length g, g @ [Gain 1 []])"
  by (simp add: createGain_def)

lemma setGainValue_new:
  "setGainValue (length g) v (g @ Gain old outs # rest) = g @ Gain (fround v) outs # rest"
  by (simp add: setGainValue_def)

lemma connect_new_gain:
  "connect (length g) t (g @ Gain v outs # rest) = g @ Gain v (outs @ [t]) # rest"
  by (simp add: connect_def)

lemma getGainValue_connect [simp]: "getGainValue (connect n t g) m = getGainValue g m"
  by (auto simp: getGainValue_def connect_def nth_list_update split: node.splits)

lemma getGainValue_new:
  "getGainValue (g @ Gain v outs # rest) (length g) = Some v"
  "getGainValue (g @ [x, Gain v outs]) (Suc (length g)) = Some v"
  by (simp_all add: getGainValue_def nth_append)

lemma playGibberingEffect_result:
  assumes rb: "recordedBuffer s \<noteq> None" and ctx: "audioContext s \<noteq> None"
    and rv: "reverbNode s = Some r"
  shows "\<exists>g'. stopAllSources env s = Inr (s\<lparr>graph := g', currentPlayingSources := []\<rparr>)
     \<and> length g' = length (graph s)
     \<and> playGibberingEffect env s =
        Inr (s\<lparr>graph := connect r Destination
                   (g' @ [Gain (fround (dround (1 - REVERB_WET_MIX (CONFIG s)))) [Destination],
                          Gain (fround (REVERB_WET_MIX (CONFIG s))) [Node r]]),
               currentPlayingSources := [],
               statusText := ''Playing gibbering effect...'', statusInitialized := False,
               playButtonDisplay := ''none'', stopButtonDisplay := ''block'',
               draws := draws s + VOICE_COUNT (CONFIG s),
               timers := timers s @
                 map (\<lambda>k. \<lparr>due = nowMs s
                       + max 0 (random env (draws s + k) * real (STAGGER_MAX_MS (CONFIG s))
                                / 1000 * 1000),
                    callback = SpawnVoice (length (graph s)) (Suc (length (graph s))) True\<rparr>)
                   [0..<VOICE_COUNT (CONFIG s)],
               downloadButtonDisabled := False\<rparr>)"
proof -
  from ctx obtain c where c: "audioContext s = Some c" by auto
  from stopAllSources_ok [of env s] obtain g' where
    stop: "stopAllSources env s = Inr (s\<lparr>graph := g', currentPlayingSources := []\<rparr>)"
    and len: "length g' = length (graph s)" by blast
  from rb obtain buf where buf: "recordedBuffer s = Some buf" by auto
  have "playGibberingEffect env s =
        Inr (s\<lparr>graph := connect r Destination
                   (g' @ [Gain (fround (dround (1 - REVERB_WET_MIX (CONFIG s)))) [Destination],
                          Gain (fround (REVERB_WET_MIX (CONFIG s))) [Node r]]),
               currentPlayingSources := [],
               statusText := ''Playing gibbering effect...'', statusInitialized := False,
               playButtonDisplay := ''none'', stopButtonDisplay := ''block'',
               draws := draws s + VOICE_COUNT (CONFIG s),
               timers := timers s @
                 map (\<lambda>k. \<lparr>due = nowMs s
                       + max 0 (random env (draws s + k) * real (STAGGER_MAX_MS (CONFIG s))
                                / 1000 * 1000),
                    callback = SpawnVoice (length g') (Suc (length g')) True\<rparr>)
                   [0..<VOICE_COUNT (CONFIG s)],
               downloadButtonDisabled := False\<rparr>)"
    by (simp add: playGibberingEffect_def stop raising_def updateStatus_def c rv buf
        createGain_app createGain_app2 setGainValue_new setGainValue_new2
        connect_new_gain connect_new_gain2 spawnLoop_result Let_def)
  then have "playGibberingEffect env s =
        Inr (s\<lparr>graph := connect r Destination
                   (g' @ [Gain (fround (dround (1 - REVERB_WET_MIX (CONFIG s)))) [Destination],
                          Gain (fround (REVERB_WET_MIX (CONFIG s))) [Node r]]),
               currentPlayingSources := [],
               statusText := ''Playing gibbering effect...'', statusInitialized := False,
               playButtonDisplay := ''none'', stopButtonDisplay := ''block'',
               draws := draws s + VOICE_COUNT (CONFIG s),
               timers := timers s @
                 map (\<lambda>k. \<lparr>due = nowMs s
                       + max 0 (random env (draws s + k) * real (STAGGER_MAX_MS (CONFIG s))
                                / 1000 * 1000),
                    callback = SpawnVoice (length (graph s)) (Suc (length (graph s))) True\<rparr>)
                   [0..<VOICE_COUNT (CONFIG s)],
               downloadButtonDisabled := False\<rparr>)"
    unfolding len .
  with stop len show ?thesis by blast
qed


lemma stopAllSources_empty:
  "currentPlayingSources s = [] \<Longrightarrow> stopAllSources env s = Inr s"
  by (simp add: stopAllSources_def)

lemma playGibberingEffect_idle:
  assumes rb: "recordedBuffer s \<noteq> None" and ctx: "audioContext s \<noteq> None"
    and rv: "reverbNode s = Some r" and idle: "currentPlayingSources s = []"
  shows "playGibberingEffect env s =
        Inr (s\<lparr>graph := connect r Destination
                   (graph s @ [Gain (fround (dround (1 - REVERB_WET_MIX (CONFIG s)))) [Destination],
                          Gain (fround (REVERB_WET_MIX (CONFIG s))) [Node r]]),
               currentPlayingSources := [],
               statusText := ''Playing gibbering effect...'', statusInitialized := False,
               playButtonDisplay := ''none'', stopButtonDisplay := ''block'',
               draws := draws s + VOICE_COUNT (CONFIG s),
               timers := timers s @
                 map (\<lambda>k. \<lparr>due = nowMs s
                       + max 0 (random env (draws s + k) * real (STAGGER_MAX_MS (CONFIG s))
                                / 1000 * 1000),
                    callback = SpawnVoice (length (graph s)) (Suc (length (graph s))) True\<rparr>)
                   [0..<VOICE_COUNT (CONFIG s)],
               downloadButtonDisabled := False\<rparr>)"
proof -
  from playGibberingEffect_result [OF rb ctx rv, of env] obtain g' where
    g': "stopAllSources env s = Inr (s\<lparr>graph := g', currentPlayingSources := []\<rparr>)"
    and play: "playGibberingEffect env s =
        Inr (s\<lparr>graph := connect r Destination
                   (g' @ [Gain (fround (dround (1 - REVERB_WET_MIX (CONFIG s)))) [Destination],
                          Gain (fround (REVERB_WET_MIX (CONFIG s))) [Node r]]),
               currentPlayingSources := [],
               statusText := ''Playing gibbering effect...'', statusInitialized := False,
               playButtonDisplay := ''none'', stopButtonDisplay := ''block'',
               draws := draws s + VOICE_COUNT (CONFIG s),
               timers := timers s @
                 map (\<lambda>k. \<lparr>due = nowMs s
                       + max 0 (random env (draws s + k) * real (STAGGER_MAX_MS (CONFIG s))
                                / 1000 * 1000),
                    callback = SpawnVoice (length (graph s)) (Suc (length (graph s))) True\<rparr>)
                   [0..<VOICE_COUNT (CONFIG s)],
               downloadButtonDisabled := False\<rparr>)"
    by blast
  from g' stopAllSources_empty [OF idle, of env]
  have "graph (s\<lparr>graph := g', currentPlayingSources := []\<rparr>) = graph s"
    by (metis sum.inject(2))
  then have "g' = graph s" by simp
  with play show ?thesis by simp
qed

lemma fire_spawn:
  assumes "audioContext s \<noteq> None" and "0 \<le> nowMs s \<or> 0 \<le> d"
  shows "fire env \<lparr>due = d, callback = SpawnVoice dryGain wetGain continuousMode\<rparr> s =
     (let s1 = s\<lparr>nowMs := max (nowMs s) d\<rparr>; c = the (audioContext s) in
      s1\<lparr>graph := graph s1 @
              [Source \<lparr>sourceBuffer = recordedBuffer s1,
                       playbackRate = PITCH_MIN (CONFIG s1)
                         + random env (draws s1) * (PITCH_MAX (CONFIG s1) - PITCH_MIN (CONFIG s1)),
                       loop = (continuousMode \<or> random env (draws s1 + 1) < LOOP_PROBABILITY (CONFIG s1)),
                       startTime = Some (fst (currentTime env c s1)),
                       stopTime = (if continuousMode then None
                                   else Some (fst (currentTime env c (snd (currentTime env c s1)))
                                              + real (EFFECT_DURATION_MS (CONFIG s1)) / 1000)),
                       ended = False\<rparr>
                 [Node (Suc (length (graph s1)))],
               Gain (fround (GAIN_MIN (CONFIG s1)
                       + random env (draws s1 + (if continuousMode then 1 else 2))
                         * (GAIN_MAX (CONFIG s1) - GAIN_MIN (CONFIG s1))))
                 [Node dryGain, Node wetGain]],
            draws := draws s1 + (if continuousMode then 2 else 3),
            currentPlayingSources := currentPlayingSources s1 @ [length (graph s1)],
            clockLead := clockLead s1 + quantaRendered env (clockReads s1)
              + (if continuousMode then 0 else quantaRendered env (Suc (clockReads s1))),
            clockReads := clockReads s1 + (if continuousMode then 1 else 2)\<rparr>)"
proof -
  define s1 where "s1 = s\<lparr>nowMs := max (nowMs s) d\<rparr>"
  from assms(1) obtain c where c: "audioContext s = Some c" by auto
  have a: "audioContext s1 = Some c" "0 \<le> nowMs s1"
    using assms c by (auto simp: s1_def)
  have "fire env \<lparr>due = d, callback = SpawnVoice dryGain wetGain continuousMode\<rparr> s
        = (case createVoice env dryGain wetGain continuousMode s1 of
             Inl (e, s') \<Rightarrow> s' | Inr s' \<Rightarrow> s')"
    by (simp add: fire_def s1_def)
  then show ?thesis
    unfolding createVoice_result [OF a] Let_def s1_def [symmetric] c by simp
qed

subsection \<open>The event loop on concrete traces\<close>

lemma advance_none_due:
  assumes "\<And>tm. tm \<in> set (timers s) \<Longrightarrow> \<not> due tm \<le> t"
  shows "advance env t s = s\<lparr>nowMs := max (nowMs s) t\<rparr>"
proof -
  from assms have "filter (\<lambda>tm. due tm \<le> t) (timers s) = []"
    and "filter (\<lambda>tm. \<not> due tm \<le> t) (timers s) = timers s"
    by (auto simp: filter_empty_conv filter_id_conv)
  then show ?thesis by (simp add: advance_def)
qed

lemma clickStop_idle:
  assumes "stopButtonDisplay s \<noteq> ''none''" and "currentPlayingSources s = []"
  shows "clickStop env s =
     s\<lparr>stopButtonDisplay := ''none'', playButtonDisplay := ''block'',
       playButtonDisabled := False, downloadButtonDisabled := False,
       statusText := ''Playback stopped. Ready to play again!'',
       statusInitialized := False\<rparr>"
  using assms by (simp add: clickStop_def stopAllSources_empty updateStatus_def)

lemma clickPlay_idle:
  assumes "playButtonDisplay s \<noteq> ''none''" and "\<not> playButtonDisabled s"
    and rb: "recordedBuffer s \<noteq> None" and ctx: "audioContext s \<noteq> None"
    and rv: "reverbNode s = Some r" and idle: "currentPlayingSources s = []"
  shows "clickPlay env s =
        s\<lparr>graph := connect r Destination
                   (graph s @ [Gain (fround (dround (1 - REVERB_WET_MIX (CONFIG s)))) [Destination],
                          Gain (fround (REVERB_WET_MIX (CONFIG s))) [Node r]]),
               currentPlayingSources := [],
               statusText := ''Playing gibbering effect...'', statusInitialized := False,
               playButtonDisplay := ''none'', stopButtonDisplay := ''block'',
               draws := draws s + VOICE_COUNT (CONFIG s),
               timers := timers s @
                 map (\<lambda>k. \<lparr>due = nowMs s
                       + max 0 (random env (draws s + k) * real (STAGGER_MAX_MS (CONFIG s))
                                / 1000 * 1000),
                    callback = SpawnVoice (length (graph s)) (Suc (length (graph s))) True\<rparr>)
                   [0..<VOICE_COUNT (CONFIG s)],
               downloadButtonDisabled := False\<rparr>"
  using assms(1,2) by (simp add: clickPlay_def playGibberingEffect_idle [OF rb ctx rv idle])

lemma overlap_run:
  fixes s0 :: state
  assumes rb: "recordedBuffer s0 \<noteq> None" and ctx: "audioContext s0 \<noteq> None"
    and rv: "reverbNode s0 = Some 0" and g0: "length (graph s0) = 1"
    and idle: "currentPlayingSources s0 = []" "timers s0 = []" "nowMs s0 = 0"
    and cfg: "VOICE_COUNT (CONFIG s0) = 1" "STAGGER_MAX_MS (CONFIG s0) = 800"
    and btn: "playButtonDisplay s0 \<noteq> ''none''" "\<not> playButtonDisabled s0"
    and rnd: "random env (draws s0) = 7 / 8" "random env (draws s0 + 1) = 1 / 80"
  shows "currentPlayingSources (run env s0 overlapTrace) = [5, 7]
     \<and> voiceBus (graph (run env s0 overlapTrace)) 5 = [Node 3, Node 4]
     \<and> voiceBus (graph (run env s0 overlapTrace)) 7 = [Node 1, Node 2]
     \<and> timers (run env s0 overlapTrace) = []"
proof -
  define s1 where "s1 = clickPlay env s0"
  define s2 where "s2 = advance env 100 s1"
  define s3 where "s3 = clickStop env s2"
  define s4 where "s4 = advance env 200 s3"
  define s5 where "s5 = clickPlay env s4"
  define s6 where "s6 = advance env 1000 s5"
  have run: "run env s0 overlapTrace = s6"
    by (simp add: run_def overlapTrace_def s1_def s2_def s3_def s4_def s5_def s6_def)
  note p1 = clickPlay_idle [OF btn rb ctx rv idle(1), of env]
  have s1: "recordedBuffer s1 \<noteq> None" "audioContext s1 \<noteq> None" "reverbNode s1 = Some 0"
    "length (graph s1) = 3" "currentPlayingSources s1 = []"
    "timers s1 = [\<lparr>due = 700, callback = SpawnVoice 1 2 True\<rparr>]" "nowMs s1 = 0"
    "CONFIG s1 = CONFIG s0" "draws s1 = draws s0 + 1"
    "stopButtonDisplay s1 = ''block''"
    using rb ctx rv g0 idle cfg rnd unfolding s1_def p1 by simp_all
  have s2_eq: "s2 = s1\<lparr>nowMs := 100\<rparr>"
    unfolding s2_def using advance_none_due [of s1 100 env] s1 by simp
  have s3_eq: "s3 = s2\<lparr>stopButtonDisplay := ''none'', playButtonDisplay := ''block'',
       playButtonDisabled := False, downloadButtonDisabled := False,
       statusText := ''Playback stopped. Ready to play again!'',
       statusInitialized := False\<rparr>"
    unfolding s3_def using s1 by (intro clickStop_idle) (simp_all add: s2_eq)
  have s4_eq: "s4 = s3\<lparr>nowMs := 200\<rparr>"
    unfolding s4_def using advance_none_due [of s3 200 env] s1 by (simp add: s3_eq s2_eq)
  have s4: "recordedBuffer s4 \<noteq> None" "audioContext s4 \<noteq> None" "reverbNode s4 = Some 0"
    "length (graph s4) = 3" "currentPlayingSources s4 = []"
    "timers s4 = [\<lparr>due = 700, callback = SpawnVoice 1 2 True\<rparr>]" "nowMs s4 = 200"
    "CONFIG s4 = CONFIG s0" "draws s4 = draws s0 + 1"
    "playButtonDisplay s4 \<noteq> ''none''" "\<not> playButtonDisabled s4"
    using s1 by (simp_all add: s4_eq s3_eq s2_eq)
  note p5 = clickPlay_idle [OF s4(10,11,1,2,3,5), of env]
  have s5: "audioContext s5 \<noteq> None"
    "length (graph s5) = 5" "currentPlayingSources s5 = []"
    "timers s5 = [\<lparr>due = 700, callback = SpawnVoice 1 2 True\<rparr>,
                  \<lparr>due = 210, callback = SpawnVoice 3 4 True\<rparr>]" "nowMs s5 = 200"
    using s4 cfg rnd unfolding s5_def p5 by simp_all
  define a where "a = fire env \<lparr>due = 210, callback = SpawnVoice 3 4 True\<rparr> (s5\<lparr>timers := []\<rparr>)"
  define b where "b = fire env \<lparr>due = 700, callback = SpawnVoice 1 2 True\<rparr> a"
  have s6_eq: "s6 = b\<lparr>nowMs := max (nowMs b) 1000\<rparr>"
    by (simp add: s6_def advance_def s5 a_def b_def Let_def)
  have a: "audioContext a \<noteq> None" "0 \<le> nowMs a" "length (graph a) = 7"
    "currentPlayingSources a = [5]" "timers a = []"
    "outputsOf (graph a) 5 = [Node 6]" "outputsOf (graph a) 6 = [Node 3, Node 4]"
    unfolding a_def using s5
    by (simp_all add: fire_spawn Let_def outputsOf_def nth_append)
  have b: "length (graph b) = 9" "currentPlayingSources b = [5, 7]" "timers b = []"
    "outputsOf (graph b) 5 = [Node 6]" "outputsOf (graph b) 6 = [Node 3, Node 4]"
    "outputsOf (graph b) 7 = [Node 8]" "outputsOf (graph b) 8 = [Node 1, Node 2]"
    unfolding b_def using a
    by (simp_all add: fire_spawn Let_def outputsOf_def nth_append)
  show ?thesis
    unfolding run s6_eq using b by (simp add: voiceBus_def outputsOf_def)
qed

subsection \<open>The claims about the engine\<close>

lemma ready_fields:
  "recordedBuffer (readyState env rate) = Some exampleBuffer"
  "audioContext (readyState env rate) = Some \<lparr>ctxSampleRate = rate\<rparr>"
  "reverbNode (readyState env rate) = Some 0"
  "length (graph (readyState env rate)) = 1"
  "currentPlayingSources (readyState env rate) = []"
  "timers (readyState env rate) = []"
  "nowMs (readyState env rate) = 0"
  "draws (readyState env rate) = 4 * rate"
  "CONFIG (readyState env rate) = oneVoiceConfig"
  "playButtonDisplay (readyState env rate) = ''block''"
  "playButtonDisabled (readyState env rate) = False"
  "clockLead (readyState env rate) = 0"
  "clockReads (readyState env rate) = 0"
  by (simp_all add: readyState_def initialState_def processRecording_def initAudioContext_def
      updateStatus_def createConvolver_def generateReverbImpulse_def setConvolverBuffer_def
      Let_def)

lemma oneVoice_fields:
  "VOICE_COUNT oneVoiceConfig = 1" "STAGGER_MAX_MS oneVoiceConfig = 800"
  "PITCH_MIN oneVoiceConfig = 1 / 5" "PITCH_MAX oneVoiceConfig = 3 / 2"
  "EFFECT_DURATION_MS oneVoiceConfig = 15000" "REVERB_WET_MIX oneVoiceConfig = 1 / 2"
  by (simp_all add: oneVoiceConfig_def defaultConfig_def)

text \<open>
  Claim C9. While no recording exists, \<open>playGibberingEffect\<close> and \<open>downloadEffect\<close>
  return at once and leave the whole state as it was: no voice is scheduled, no node is
  created, no file is produced. The same holds for a click on either button.
\<close>

theorem no_recording_noop:
  assumes "recordedBuffer s = None"
  shows "playGibberingEffect env s = Inr s \<and> downloadEffect env s = s
     \<and> clickPlay env s = s \<and> clickDownload env s = s"
  using assms
  by (simp add: playGibberingEffect_def downloadEffect_def clickPlay_def clickDownload_def)

text \<open>The page as loaded has no recording: both calls leave it as it is.\<close>

theorem no_recording_noop_witness:
  "playGibberingEffect exampleEnv initialState = Inr initialState
   \<and> downloadEffect exampleEnv initialState = initialState
   \<and> timers initialState = [] \<and> downloads initialState = []"
  using no_recording_noop [of initialState exampleEnv] by (simp add: initialState_def)

text \<open>
  Claim C6. \<open>stopAllSources\<close> never throws, whatever the engine does on \<open>stop()\<close>,
  and leaves the active set empty; a second call right after changes nothing, and on an
  empty set the call changes nothing at all. A source whose \<open>stop()\<close> throws, as one
  that has already ended does on engines that reject it, is passed over: when every
  \<open>stop()\<close> throws, all the call does is empty the set.
\<close>

theorem stopAllSources_safe:
  "\<exists>s'. stopAllSources env s = Inr s' \<and> currentPlayingSources s' = []
      \<and> stopAllSources env s' = Inr s'
      \<and> (currentPlayingSources s = [] \<longrightarrow> s' = s)
      \<and> ((\<forall>source \<in> set (currentPlayingSources s). isl (sourceStop env source 0 (graph s)))
           \<longrightarrow> s' = s\<lparr>currentPlayingSources := []\<rparr>)"
proof -
  from stopAllSources_ok [of env s] obtain g' where
    s': "stopAllSources env s = Inr (s\<lparr>graph := g', currentPlayingSources := []\<rparr>)" by blast
  define s' where "s' = s\<lparr>graph := g', currentPlayingSources := []\<rparr>"
  have a: "stopAllSources env s = Inr s'" "currentPlayingSources s' = []"
    using s' by (simp_all add: s'_def)
  have b: "stopAllSources env s' = Inr s'"
    using a(2) by (rule stopAllSources_empty)
  have c: "s' = s" if "currentPlayingSources s = []"
    using a(1) stopAllSources_empty [OF that, of env] by simp
  have d: "s' = s\<lparr>currentPlayingSources := []\<rparr>"
    if "\<forall>source \<in> set (currentPlayingSources s). isl (sourceStop env source 0 (graph s))"
  proof -
    from that have "forEach (currentPlayingSources s)
        (\<lambda>source g. tryCatch (sourceStop env source 0 g) (\<lambda>e. Inr g)) (graph s) = Inr (graph s)"
      by (intro stop_forEach_throwing) blast
    then have "stopAllSources env s = Inr (s\<lparr>currentPlayingSources := []\<rparr>)"
      by (simp add: stopAllSources_def)
    with a(1) show ?thesis by simp
  qed
  from a b c d show ?thesis by blast
qed

lemma single_voice_run:
  fixes s0 :: state
  assumes rb: "recordedBuffer s0 \<noteq> None" and ctx: "audioContext s0 \<noteq> None"
    and rv: "reverbNode s0 = Some 0" and g0: "length (graph s0) = 1"
    and idle: "currentPlayingSources s0 = []" "timers s0 = []" "nowMs s0 = 0"
    and cfg: "VOICE_COUNT (CONFIG s0) = 1" "STAGGER_MAX_MS (CONFIG s0) = 800"
    and btn: "playButtonDisplay s0 \<noteq> ''none''" "\<not> playButtonDisabled s0"
    and rnd: "random env (draws s0) = 1 / 2"
  shows "currentPlayingSources (run env s0 endedVoiceTrace) = [3]
     \<and> (\<exists>b. getSource (graph (run env s0 endedVoiceTrace)) 3 = Some b
            \<and> startTime b \<noteq> None \<and> stopTime b = None \<and> loop b \<and> ended b)"
proof -
  define s1 where "s1 = clickPlay env s0"
  define s2 where "s2 = advance env 1000 s1"
  have run: "run env s0 endedVoiceTrace = finishPlayback 3 s2"
    by (simp add: run_def endedVoiceTrace_def s1_def s2_def)
  note p1 = clickPlay_idle [OF btn rb ctx rv idle(1), of env]
  have s1: "audioContext s1 \<noteq> None"
    "length (graph s1) = 3" "currentPlayingSources s1 = []"
    "timers s1 = [\<lparr>due = 400, callback = SpawnVoice 1 2 True\<rparr>]" "nowMs s1 = 0"
    using rb ctx rv g0 idle cfg rnd unfolding s1_def p1 by simp_all
  define a where "a = fire env \<lparr>due = 400, callback = SpawnVoice 1 2 True\<rparr> (s1\<lparr>timers := []\<rparr>)"
  have s2_eq: "s2 = a\<lparr>nowMs := max (nowMs a) 1000\<rparr>"
    by (simp add: s2_def advance_def s1 a_def Let_def)
  have a: "currentPlayingSources a = [3]"
    "\<exists>b. getSource (graph a) 3 = Some b
            \<and> startTime b \<noteq> None \<and> stopTime b = None \<and> loop b \<and> \<not> ended b"
    unfolding a_def using s1
    by (simp_all add: fire_spawn Let_def getSource_def nth_append)
  then obtain b where b: "getSource (graph a) 3 = Some b"
    "startTime b \<noteq> None" "stopTime b = None" "loop b" by blast
  have "getSource (graph (finishPlayback 3 s2)) 3 = Some (b\<lparr>ended := True\<rparr>)"
    using b(1)
    by (auto simp: finishPlayback_def s2_eq getSource_def updSource_def split: if_splits node.splits)
  with a(1) b show ?thesis
    unfolding run by (simp add: finishPlayback_def s2_eq)
qed

text \<open>
  On an engine that rejects \<open>stop()\<close> on an ended source, source 3 has ended and is
  still in the active set: its \<open>stop()\<close> throws, and \<open>stopAllSources\<close> returns with
  the set emptied and nothing else changed.
\<close>

theorem stopAllSources_safe_witness:
  "currentPlayingSources (run legacyEnv (readyState legacyEnv 48000) endedVoiceTrace) = [3]
   \<and> sourceStop legacyEnv 3 0 (graph (run legacyEnv (readyState legacyEnv 48000) endedVoiceTrace))
       = Inl InvalidStateError
   \<and> stopAllSources legacyEnv (run legacyEnv (readyState legacyEnv 48000) endedVoiceTrace)
       = Inr ((run legacyEnv (readyState legacyEnv 48000) endedVoiceTrace)
                \<lparr>currentPlayingSources := []\<rparr>)"
proof -
  define s where "s = run legacyEnv (readyState legacyEnv 48000) endedVoiceTrace"
  have "random legacyEnv (draws (readyState legacyEnv 48000)) = 1 / 2"
    by (simp add: legacyEnv_def exampleEnv_def)
  from single_voice_run [of "readyState legacyEnv 48000" legacyEnv, OF _ _ _ _ _ _ _ _ _ _ _ this]
  obtain b where
    s: "currentPlayingSources s = [3]" "getSource (graph s) 3 = Some b"
    "startTime b \<noteq> None" "ended b"
    unfolding s_def by (auto simp: ready_fields oneVoice_fields)
  have stop: "sourceStop legacyEnv 3 0 (graph s) = Inl InvalidStateError"
    using s by (simp add: sourceStop_def legacyEnv_def)
  from stopAllSources_safe [of legacyEnv s] s(1) stop
  have "stopAllSources legacyEnv s = Inr (s\<lparr>currentPlayingSources := []\<rparr>)"
    by auto
  with s(1) stop show ?thesis unfolding s_def by simp
qed




text \<open>
  Claim C5. With \<open>PITCH_MIN \<le> PITCH_MAX\<close> and a draw in \<open>[0, 1)\<close>, the playback
  rate given to a new voice, \<open>PITCH_MIN + draw * (PITCH_MAX - PITCH_MIN)\<close>, lies in
  \<open>[PITCH_MIN, PITCH_MAX]\<close>, and it is the common value when the two bounds are equal.
  This holds for \<open>createVoice\<close> in both modes and for \<open>createOfflineVoice\<close>.
\<close>

theorem pitch_in_range:
  assumes "PITCH_MIN (CONFIG s) \<le> PITCH_MAX (CONFIG s)"
    and "0 \<le> random env (draws s)" and "random env (draws s) < 1"
    and "audioContext s \<noteq> None" and "0 \<le> nowMs s" and "0 \<le> delay"
  shows "(\<exists>s' b. createVoice env dryGain wetGain continuousMode s = Inr s'
            \<and> getSource (graph s') (length (graph s)) = Some b
            \<and> playbackRate b = PITCH_MIN (CONFIG s)
                 + random env (draws s) * (PITCH_MAX (CONFIG s) - PITCH_MIN (CONFIG s))
            \<and> PITCH_MIN (CONFIG s) \<le> playbackRate b \<and> playbackRate b \<le> PITCH_MAX (CONFIG s)
            \<and> (PITCH_MIN (CONFIG s) = PITCH_MAX (CONFIG s)
                 \<longrightarrow> playbackRate b = PITCH_MIN (CONFIG s)))
     \<and> (\<exists>context' s' b.
            createOfflineVoice env context dryGain wetGain delay s = Inr (context', s')
            \<and> getSource (offGraph context') (length (offGraph context)) = Some b
            \<and> playbackRate b = PITCH_MIN (CONFIG s)
                 + random env (draws s) * (PITCH_MAX (CONFIG s) - PITCH_MIN (CONFIG s))
            \<and> PITCH_MIN (CONFIG s) \<le> playbackRate b \<and> playbackRate b \<le> PITCH_MAX (CONFIG s)
            \<and> (PITCH_MIN (CONFIG s) = PITCH_MAX (CONFIG s)
                 \<longrightarrow> playbackRate b = PITCH_MIN (CONFIG s)))"
proof -
  define lo where "lo = PITCH_MIN (CONFIG s)"
  define hi where "hi = PITCH_MAX (CONFIG s)"
  define u where "u = random env (draws s)"
  have d: "0 \<le> hi - lo" using assms(1) by (simp add: lo_def hi_def)
  have lower: "lo \<le> lo + u * (hi - lo)"
    using assms(2) d by (simp add: u_def)
  have "u * (hi - lo) \<le> 1 * (hi - lo)"
    using assms(3) d by (intro mult_right_mono) (simp_all add: u_def)
  then have upper: "lo + u * (hi - lo) \<le> hi" by simp
  have same: "lo = hi \<longrightarrow> lo + u * (hi - lo) = lo" by simp
  from assms(4) obtain c where c: "audioContext s = Some c" by auto
  show ?thesis
    using lower upper same
    by (simp add: createVoice_result [OF c assms(5)] createOfflineVoice_result [OF assms(6)]
        getSource_new lo_def hi_def u_def)
qed

text \<open>
  With a draw of 0.5 the default bounds 0.2 and 1.5 give 0.85; equal bounds of 0.2 give
  0.2.
\<close>

theorem pitch_in_range_witness:
  "(\<exists>s' b. createVoice exampleEnv 1 2 True (readyState exampleEnv 48000) = Inr s'
        \<and> getSource (graph s') 1 = Some b \<and> playbackRate b = 17 / 20)
   \<and> (\<exists>s' b. createVoice exampleEnv 1 2 True
                 ((readyState exampleEnv 48000)\<lparr>CONFIG := oneVoiceConfig\<lparr>PITCH_MAX := 1 / 5\<rparr>\<rparr>)
               = Inr s'
        \<and> getSource (graph s') 1 = Some b \<and> playbackRate b = 1 / 5)"
proof -
  have rnd: "0 \<le> random exampleEnv n" "random exampleEnv n < 1" for n
    by (simp_all add: exampleEnv_def)
  define s where "s = readyState exampleEnv 48000"
  define t where "t = s\<lparr>CONFIG := oneVoiceConfig\<lparr>PITCH_MAX := 1 / 5\<rparr>\<rparr>"
  have s: "PITCH_MIN (CONFIG s) \<le> PITCH_MAX (CONFIG s)" "audioContext s \<noteq> None"
    "0 \<le> nowMs s" "length (graph s) = 1" "PITCH_MIN (CONFIG s) = 1 / 5"
    "PITCH_MAX (CONFIG s) = 3 / 2" "random exampleEnv (draws s) = 1 / 2"
    by (simp_all add: s_def ready_fields oneVoice_fields exampleEnv_def)
  have t: "PITCH_MIN (CONFIG t) \<le> PITCH_MAX (CONFIG t)" "audioContext t \<noteq> None"
    "0 \<le> nowMs t" "length (graph t) = 1" "PITCH_MIN (CONFIG t) = 1 / 5"
    "PITCH_MAX (CONFIG t) = 1 / 5"
    by (simp_all add: t_def s_def ready_fields oneVoice_fields)
  from pitch_in_range [OF s(1) rnd s(2,3) order_refl, of 1 2 True
      "\<lparr>offChannels = 2, offLength = 1, offSampleRate = 48000, offGraph = []\<rparr>"]
  have a: "\<exists>s' b. createVoice exampleEnv 1 2 True s = Inr s'
        \<and> getSource (graph s') 1 = Some b \<and> playbackRate b = 17 / 20"
    by (auto simp: s(4-7))
  from pitch_in_range [OF t(1) rnd t(2,3) order_refl, of 1 2 True
      "\<lparr>offChannels = 2, offLength = 1, offSampleRate = 48000, offGraph = []\<rparr>"]
  have b: "\<exists>s' b. createVoice exampleEnv 1 2 True t = Inr s'
        \<and> getSource (graph s') 1 = Some b \<and> playbackRate b = 1 / 5"
    by (auto simp: t(4-6))
  from a b show ?thesis unfolding t_def s_def by blast
qed

text \<open>
  Claim C4, corrected. \<open>playGibberingEffect\<close> creates two gain nodes and assigns
  \<open>1 - REVERB_WET_MIX\<close> to the first and \<open>REVERB_WET_MIX\<close> to the second. Each node
  stores what it is assigned in single precision, so the two coefficients are
  \<open>fround (dround (1 - w))\<close> and \<open>fround w\<close>. For \<open>w\<close> in \<open>[0, 1]\<close> their sum is
  within \<open>2^-24 + 2^-54\<close> of 1; it is exactly 1, and the coefficients are exactly
  \<open>1 - w\<close> and \<open>w\<close>, when \<open>w\<close> is a multiple of \<open>2^-24\<close> in \<open>[0, 1]\<close>, as the
  default 0.5 is. With the reverb among the nodes of the graph, the first node feeds
  the destination directly and the second feeds the reverb, which feeds the
  destination. Exactly these two nodes are handed to every voice the call schedules,
  one voice per configured voice.
\<close>

theorem dry_wet_gains:
  assumes "recordedBuffer s \<noteq> None" and "audioContext s \<noteq> None"
    and "reverbNode s = Some r"
  shows "\<exists>s' dry wet. playGibberingEffect env s = Inr s'
     \<and> getGainValue (graph s') (length (graph s)) = Some dry
     \<and> getGainValue (graph s') (Suc (length (graph s))) = Some wet
     \<and> dry = fround (dround (1 - REVERB_WET_MIX (CONFIG s)))
     \<and> wet = fround (REVERB_WET_MIX (CONFIG s))
     \<and> (0 \<le> REVERB_WET_MIX (CONFIG s) \<and> REVERB_WET_MIX (CONFIG s) \<le> 1
          \<longrightarrow> \<bar>dry + wet - 1\<bar> \<le> 1 / 2 ^ 24 + 1 / 2 ^ 54)
     \<and> ((\<exists>k. k \<le> 2 ^ 24 \<and> REVERB_WET_MIX (CONFIG s) = real k / 2 ^ 24)
          \<longrightarrow> dry = 1 - REVERB_WET_MIX (CONFIG s) \<and> wet = REVERB_WET_MIX (CONFIG s)
              \<and> dry + wet = 1)
     \<and> (r < length (graph s) \<longrightarrow>
            outputsOf (graph s') (length (graph s)) = [Destination]
          \<and> outputsOf (graph s') (Suc (length (graph s))) = [Node r]
          \<and> Destination \<in> set (outputsOf (graph s') r))
     \<and> length (timers s') = length (timers s) + VOICE_COUNT (CONFIG s)
     \<and> (\<forall>tm \<in> set (drop (length (timers s)) (timers s')).
           callback tm = SpawnVoice (length (graph s)) (Suc (length (graph s))) True)"
proof -
  define w where "w = REVERB_WET_MIX (CONFIG s)"
  from playGibberingEffect_result [OF assms(1,2,3), of env] obtain g' where
    len: "length g' = length (graph s)"
    and play: "playGibberingEffect env s =
        Inr (s\<lparr>graph := connect r Destination
                   (g' @ [Gain (fround (dround (1 - REVERB_WET_MIX (CONFIG s)))) [Destination],
                          Gain (fround (REVERB_WET_MIX (CONFIG s))) [Node r]]),
               currentPlayingSources := [],
               statusText := ''Playing gibbering effect...'', statusInitialized := False,
               playButtonDisplay := ''none'', stopButtonDisplay := ''block'',
               draws := draws s + VOICE_COUNT (CONFIG s),
               timers := timers s @
                 map (\<lambda>k. \<lparr>due = nowMs s
                       + max 0 (random env (draws s + k) * real (STAGGER_MAX_MS (CONFIG s))
                                / 1000 * 1000),
                    callback = SpawnVoice (length (graph s)) (Suc (length (graph s))) True\<rparr>)
                   [0..<VOICE_COUNT (CONFIG s)],
               downloadButtonDisabled := False\<rparr>)"
    by blast
  define g where "g = connect r Destination
                   (g' @ [Gain (fround (dround (1 - w))) [Destination],
                          Gain (fround w) [Node r]])"
  have gv: "getGainValue g (length (graph s)) = Some (fround (dround (1 - w)))"
      "getGainValue g (Suc (length (graph s))) = Some (fround w)"
    unfolding g_def len [symmetric] getGainValue_connect by (rule getGainValue_new)+
  have out: "outputsOf g (length (graph s)) = [Destination]
      \<and> outputsOf g (Suc (length (graph s))) = [Node r]
      \<and> Destination \<in> set (outputsOf g r)"
    if "r < length (graph s)"
  proof -
    from that have r: "r < length g'" using len by simp
    have "outputsOf g (length (graph s)) = [Destination]"
      "outputsOf g (Suc (length (graph s))) = [Node r]"
      using r unfolding g_def len [symmetric]
      by (simp_all add: outputsOf_def connect_def nth_append)
    moreover have "Destination \<in> set (outputsOf g r)"
      using r unfolding g_def
      by (simp add: outputsOf_def connect_def nth_append split: node.splits)
    ultimately show ?thesis by blast
  qed
  have bound: "\<bar>fround (dround (1 - w)) + fround w - 1\<bar> \<le> 1 / 2 ^ 24 + 1 / 2 ^ 54"
    if "0 \<le> w \<and> w \<le> 1"
    using that by (intro mix_sum_error) simp_all
  have exact: "fround (dround (1 - w)) = 1 - w \<and> fround w = w
               \<and> fround (dround (1 - w)) + fround w = 1"
    if "\<exists>k. k \<le> 2 ^ 24 \<and> w = real k / 2 ^ 24"
  proof -
    from that obtain k :: nat where k: "k \<le> 2 ^ 24" "w = real k / 2 ^ 24" by blast
    from mix_exact [OF k] show ?thesis by simp
  qed
  show ?thesis
    unfolding play w_def [symmetric] g_def [symmetric]
    using gv out bound exact by auto
qed

text \<open>
  With the default mix of 0.5, which is \<open>2^23 / 2^24\<close>, both gain nodes hold 0.5 and
  the sum is 1; the reverb is node 0 of the graph.
\<close>

theorem dry_wet_gains_witness:
  "\<exists>s'. playGibberingEffect exampleEnv (readyState exampleEnv 48000) = Inr s'
     \<and> getGainValue (graph s') 1 = Some (1 / 2) \<and> getGainValue (graph s') 2 = Some (1 / 2)
     \<and> outputsOf (graph s') 1 = [Destination] \<and> outputsOf (graph s') 2 = [Node 0]
     \<and> Destination \<in> set (outputsOf (graph s') 0)
     \<and> length (timers s') = 1"
proof -
  define s where "s = readyState exampleEnv 48000"
  have s: "recordedBuffer s \<noteq> None" "audioContext s \<noteq> None" "reverbNode s = Some 0"
    "length (graph s) = 1" "REVERB_WET_MIX (CONFIG s) = 1 / 2" "timers s = []"
    "VOICE_COUNT (CONFIG s) = 1"
    by (simp_all add: s_def ready_fields oneVoice_fields)
  have k: "\<exists>k. k \<le> 2 ^ 24 \<and> (1 / 2 :: real) = real k / 2 ^ 24"
    by (rule exI [of _ "2 ^ 23"]) simp
  have two: "Suc 1 = 2" by simp
  from dry_wet_gains [OF s(1-3), of exampleEnv] k
  have "\<exists>s'. playGibberingEffect exampleEnv s = Inr s'
     \<and> getGainValue (graph s') 1 = Some (1 / 2) \<and> getGainValue (graph s') 2 = Some (1 / 2)
     \<and> outputsOf (graph s') 1 = [Destination] \<and> outputsOf (graph s') 2 = [Node 0]
     \<and> Destination \<in> set (outputsOf (graph s') 0)
     \<and> length (timers s') = 1"
    unfolding s(4-7) two by auto
  then show ?thesis unfolding s_def .
qed

text \<open>
  The claim as the specification words it fails for a wet mix of 0.1: the dry node
  holds 0.8999999761581421 and the wet node 0.10000000149011612, neither is what was
  assigned, and the sum is \<open>1 - 3 / 2^27\<close>.
\<close>

theorem dry_wet_gains_counterexample:
  "\<exists>s' dry wet. playGibberingEffect exampleEnv tenthMixState = Inr s'
     \<and> 0 \<le> REVERB_WET_MIX (CONFIG tenthMixState) \<and> REVERB_WET_MIX (CONFIG tenthMixState) \<le> 1
     \<and> getGainValue (graph s') 1 = Some dry \<and> getGainValue (graph s') 2 = Some wet
     \<and> dry = 7549747 / 8388608 \<and> wet = 13421773 / 134217728
     \<and> dry \<noteq> 1 - REVERB_WET_MIX (CONFIG tenthMixState)
     \<and> wet \<noteq> REVERB_WET_MIX (CONFIG tenthMixState)
     \<and> dry + wet \<noteq> 1"
proof -
  have s: "recordedBuffer tenthMixState \<noteq> None" "audioContext tenthMixState \<noteq> None"
    "reverbNode tenthMixState = Some 0" "length (graph tenthMixState) = 1"
    "REVERB_WET_MIX (CONFIG tenthMixState) = 3602879701896397 / 36028797018963968"
    by (simp_all add: tenthMixState_def ready_fields)
  from playGibberingEffect_result [OF s(1-3), of exampleEnv] obtain g' where
    len: "length g' = 1"
    and play: "playGibberingEffect exampleEnv tenthMixState =
        Inr (tenthMixState\<lparr>graph := connect 0 Destination
                   (g' @ [Gain (fround (dround (1 - REVERB_WET_MIX (CONFIG tenthMixState))))
                            [Destination],
                          Gain (fround (REVERB_WET_MIX (CONFIG tenthMixState))) [Node 0]]),
               currentPlayingSources := [],
               statusText := ''Playing gibbering effect...'', statusInitialized := False,
               playButtonDisplay := ''none'', stopButtonDisplay := ''block'',
               draws := draws tenthMixState + VOICE_COUNT (CONFIG tenthMixState),
               timers := timers tenthMixState @
                 map (\<lambda>k. \<lparr>due = nowMs tenthMixState
                       + max 0 (random exampleEnv (draws tenthMixState + k)
                                * real (STAGGER_MAX_MS (CONFIG tenthMixState))
                                / 1000 * 1000),
                    callback = SpawnVoice (length (graph tenthMixState))
                                 (Suc (length (graph tenthMixState))) True\<rparr>)
                   [0..<VOICE_COUNT (CONFIG tenthMixState)],
               downloadButtonDisabled := False\<rparr>)"
    unfolding s(4) by blast
  from len obtain x where g': "g' = [x]" by (cases g') auto
  have v: "fround (dround (1 - REVERB_WET_MIX (CONFIG tenthMixState))) = 7549747 / 8388608"
    "fround (REVERB_WET_MIX (CONFIG tenthMixState)) = 13421773 / 134217728"
    unfolding s(5) by (simp_all only: dround_nine_tenths fround_nine_tenths fround_tenth)
  define s' where "s' = tenthMixState\<lparr>graph := connect 0 Destination
                   ([x] @ [Gain (7549747 / 8388608) [Destination],
                          Gain (13421773 / 134217728) [Node 0]]),
               currentPlayingSources := [],
               statusText := ''Playing gibbering effect...'', statusInitialized := False,
               playButtonDisplay := ''none'', stopButtonDisplay := ''block'',
               draws := draws tenthMixState + VOICE_COUNT (CONFIG tenthMixState),
               timers := timers tenthMixState @
                 map (\<lambda>k. \<lparr>due = nowMs tenthMixState
                       + max 0 (random exampleEnv (draws tenthMixState + k)
                                * real (STAGGER_MAX_MS (CONFIG tenthMixState))
                                / 1000 * 1000),
                    callback = SpawnVoice (length (graph tenthMixState))
                                 (Suc (length (graph tenthMixState))) True\<rparr>)
                   [0..<VOICE_COUNT (CONFIG tenthMixState)],
               downloadButtonDisabled := False\<rparr>"
  have p: "playGibberingEffect exampleEnv tenthMixState = Inr s'"
    unfolding play v g' s'_def ..
  have gv: "getGainValue (graph s') 1 = Some (7549747 / 8388608)"
    "getGainValue (graph s') 2 = Some (13421773 / 134217728)"
    by (simp_all add: s'_def) (simp_all add: getGainValue_def numeral_2_eq_2)
  have ne: "(7549747 / 8388608 :: real) \<noteq> 1 - REVERB_WET_MIX (CONFIG tenthMixState)"
    "(13421773 / 134217728 :: real) \<noteq> REVERB_WET_MIX (CONFIG tenthMixState)"
    "(7549747 / 8388608 :: real) + 13421773 / 134217728 \<noteq> 1"
    "0 \<le> REVERB_WET_MIX (CONFIG tenthMixState)" "REVERB_WET_MIX (CONFIG tenthMixState) \<le> 1"
    by (simp_all add: s(5))
  from p gv ne show ?thesis by blast
qed

text \<open>
  Claim C8, evaluated where it fails. Play with one voice staggered by 700 ms, stop after
  100 ms, play again after 200 ms with a stagger of 10 ms: the timer of the first
  invocation is still pending when the first stop and the second play empty the active
  set, and it fires afterwards. At 1000 ms the active set holds source 5, which feeds
  the gain nodes 3 and 4 of the second invocation, and source 7, which feeds the nodes 1
  and 2 of the first.
\<close>

theorem overlapping_sessions:
  "currentPlayingSources (run staggerEnv (readyState staggerEnv 48000) overlapTrace) = [5, 7]
   \<and> voiceBus (graph (run staggerEnv (readyState staggerEnv 48000) overlapTrace)) 5
       = [Node 3, Node 4]
   \<and> voiceBus (graph (run staggerEnv (readyState staggerEnv 48000) overlapTrace)) 7
       = [Node 1, Node 2]"
proof -
  have rnd: "random staggerEnv (draws (readyState staggerEnv 48000)) = 7 / 8"
    "random staggerEnv (draws (readyState staggerEnv 48000) + 1) = 1 / 80"
    by (simp_all add: ready_fields staggerEnv_def exampleEnv_def)
  from overlap_run [of "readyState staggerEnv 48000" staggerEnv, OF _ _ _ _ _ _ _ _ _ _ _ rnd]
  show ?thesis by (simp add: ready_fields oneVoice_fields)
qed

text \<open>
  X1. With a recording and an initialised audio system, \<open>playGibberingEffect\<close> returns
  normally: the call of \<open>stopAllSources\<close> it starts with succeeds and empties the active
  set, the set is still empty when the function returns (voices are only created by the
  timers), the graph has gained the two gain nodes of the dry and the wet path, one timer
  per voice has been appended, and the timers that were pending before are all still
  pending.
\<close>

theorem play_clears_active_set:
  assumes "recordedBuffer s \<noteq> None" and "audioContext s \<noteq> None" and "reverbNode s \<noteq> None"
  shows "\<exists>s1 s'. stopAllSources env s = Inr s1 \<and> currentPlayingSources s1 = []
     \<and> playGibberingEffect env s = Inr s' \<and> currentPlayingSources s' = []
     \<and> length (graph s') = length (graph s) + 2
     \<and> length (timers s') = length (timers s) + VOICE_COUNT (CONFIG s)
     \<and> take (length (timers s)) (timers s') = timers s"
proof -
  from assms(3) obtain r where r: "reverbNode s = Some r" by auto
  from playGibberingEffect_result [OF assms(1,2) r, of env]
  show ?thesis by auto
qed

text \<open>One voice configured: three nodes and one timer after the first play.\<close>

theorem play_clears_active_set_witness:
  "\<exists>s'. playGibberingEffect exampleEnv (readyState exampleEnv 48000) = Inr s'
     \<and> currentPlayingSources s' = [] \<and> length (graph s') = 3 \<and> length (timers s') = 1"
proof -
  define s where "s = readyState exampleEnv 48000"
  have s: "recordedBuffer s \<noteq> None" "audioContext s \<noteq> None" "reverbNode s \<noteq> None"
    "length (graph s) = 1" "timers s = []" "VOICE_COUNT (CONFIG s) = 1"
    by (simp_all add: s_def ready_fields oneVoice_fields)
  from play_clears_active_set [OF s(1-3), of exampleEnv]
  have "\<exists>s'. playGibberingEffect exampleEnv s = Inr s'
     \<and> currentPlayingSources s' = [] \<and> length (graph s') = 3 \<and> length (timers s') = 1"
    unfolding s(4-6) by auto
  then show ?thesis unfolding s_def .
qed

end
